theory Spec2Isabelle
  imports Main "HOL-Library.AList" "HOL-Library.Multiset"
begin

section \<open>Python values\<close>

text \<open>
  The orchestration core exchanges untyped dictionaries (\<open>Dict[str, Any]\<close>).  A value is
  one of the JSON shapes; a dictionary is an association list in insertion order, which is
  the order a Python \<open>dict\<close> keeps.  Strings are byte lists (UTF-8).  Numbers are
  integers: floating-point values are not modelled.
\<close>

datatype pyval =
    PNone
  | PBool bool
  | PInt int
  | PStr string
  | PList "pyval list"
  | PDict "(string \<times> pyval) list"

type_synonym pydict = "(string \<times> pyval) list"

text \<open>Python truthiness, as tested by \<open>if x:\<close> and \<open>x or y\<close>.\<close>

fun truthy :: "pyval \<Rightarrow> bool" where
  "truthy PNone = False"
| "truthy (PBool b) = b"
| "truthy (PInt n) = (n \<noteq> 0)"
| "truthy (PStr s) = (s \<noteq> [])"
| "truthy (PList xs) = (xs \<noteq> [])"
| "truthy (PDict d) = (d \<noteq> [])"

text \<open>\<open>d.get(k)\<close>: the value, or \<open>None\<close> for a missing key.\<close>

definition dict_get :: "pydict \<Rightarrow> string \<Rightarrow> pyval" where
  "dict_get d k = (case map_of d k of None \<Rightarrow> PNone | Some v \<Rightarrow> v)"

text \<open>\<open>d.get(k, default)\<close>.\<close>

definition dict_get_default :: "pydict \<Rightarrow> string \<Rightarrow> pyval \<Rightarrow> pyval" where
  "dict_get_default d k dflt = (case map_of d k of None \<Rightarrow> dflt | Some v \<Rightarrow> v)"

text \<open>
  \<open>d[k] = v\<close>: an existing key keeps its position, a new key goes to the end.  This is
  \<^const>\<open>AList.update\<close>.  \<open>{**a, **b}\<close> and \<open>a.update(b)\<close> store the items of \<open>b\<close> one
  after the other.
\<close>

definition dict_merge :: "pydict \<Rightarrow> pydict \<Rightarrow> pydict" where
  "dict_merge a b = foldl (\<lambda>d (k, v). AList.update k v d) a b"

text \<open>
  The list slice \<open>xs[i:]\<close> for an integer \<open>i\<close>: a negative start counts from the end and is
  clamped at the front of the list.
\<close>

definition slice_from :: "int \<Rightarrow> 'a list \<Rightarrow> 'a list" where
  "slice_from i xs =
     (if i < 0 then drop (nat (int (length xs) + i)) xs else drop (nat i) xs)"

text \<open>The string slice \<open>s[:n]\<close> for a non-negative constant \<open>n\<close>.\<close>

definition slice_to :: "nat \<Rightarrow> 'a list \<Rightarrow> 'a list" where
  "slice_to n xs = take n xs"

section \<open>Conversation ledger (models/conversation.py)\<close>

record ConversationMessage =
  role :: string
  content :: string
  timestamp :: int
  metadata :: pydict

record ConversationState =
  session_id :: string
  messages :: "ConversationMessage list"
  session_context :: pydict
  active_tasks :: "string list"
  created_at :: int
  updated_at :: int

record ConversationManager =
  sessions :: "string \<rightharpoonup> ConversationState"
  max_history :: int

text \<open>
  \<open>ConversationManager(max_history)\<close>; the module-level instance is built with the default
  of 20.  Clock readings (\<open>datetime.utcnow()\<close>) are a parameter \<open>now\<close> of each operation.
\<close>

definition new_manager :: "int \<Rightarrow> ConversationManager" where
  "new_manager n = \<lparr>sessions = Map.empty, max_history = n\<rparr>"

definition conversation_manager :: ConversationManager where
  "conversation_manager = new_manager 20"

definition new_state :: "string \<Rightarrow> int \<Rightarrow> ConversationState" where
  "new_state sid now =
     \<lparr>session_id = sid, messages = [], session_context = [], active_tasks = [],
      created_at = now, updated_at = now\<rparr>"

definition get_session :: "ConversationManager \<Rightarrow> string \<Rightarrow> ConversationState option" where
  "get_session mgr sid = sessions mgr sid"

definition add_message ::
  "ConversationManager \<Rightarrow> string \<Rightarrow> string \<Rightarrow> string \<Rightarrow> pydict option \<Rightarrow> int
     \<Rightarrow> ConversationManager" where
  "add_message mgr sid r c md now =
     (let session = (case sessions mgr sid of None \<Rightarrow> new_state sid now | Some s \<Rightarrow> s);
          message = \<lparr>role = r, content = c, timestamp = now,
                     metadata = (case md of None \<Rightarrow> [] | Some d \<Rightarrow> d)\<rparr>;
          appended = messages session @ [message];
          limited = (if int (length appended) > max_history mgr
                     then slice_from (- max_history mgr) appended else appended)
      in mgr\<lparr>sessions := (sessions mgr)
               (sid \<mapsto> session\<lparr>messages := limited, updated_at := now\<rparr>)\<rparr>)"

text \<open>\<open>get_messages(session_id, limit)\<close>; a limit of \<open>None\<close> or \<open>0\<close> is falsy and returns all.\<close>

definition get_messages ::
  "ConversationManager \<Rightarrow> string \<Rightarrow> int option \<Rightarrow> ConversationMessage list" where
  "get_messages mgr sid limit =
     (case get_session mgr sid of
        None \<Rightarrow> []
      | Some session \<Rightarrow>
          (case limit of
             None \<Rightarrow> messages session
           | Some l \<Rightarrow> if l \<noteq> 0 then slice_from (- l) (messages session)
                       else messages session))"

text \<open>A sequence of appends to one session: (role, content, metadata, clock reading).\<close>

fun add_messages ::
  "ConversationManager \<Rightarrow> string \<Rightarrow> (string \<times> string \<times> pydict option \<times> int) list
     \<Rightarrow> ConversationManager" where
  "add_messages mgr sid [] = mgr"
| "add_messages mgr sid ((r, c, md, now) # rest) =
     add_messages (add_message mgr sid r c md now) sid rest"

section \<open>Memory service (services/memory_service.py)\<close>

text \<open>
  A short-term entry is the dictionary \<open>{"key", "value", "timestamp", "expires_at"}\<close>.
  Times are integers (microseconds, the resolution of \<open>datetime\<close>); the readings of
  \<open>datetime.utcnow()\<close> taken by an operation are parameters of its model.
\<close>

record MemoryEntry =
  entry_key :: string
  entry_value :: pyval
  entry_timestamp :: int
  expires_at :: int

record MemoryService =
  short_term_memory :: "string \<rightharpoonup> MemoryEntry list"
  long_term_memory :: "string \<rightharpoonup> pydict"
  context_cache :: "string \<rightharpoonup> (string \<times> pydict \<times> int) list"

definition new_memory :: MemoryService where
  "new_memory = \<lparr>short_term_memory = Map.empty, long_term_memory = Map.empty,
                  context_cache = Map.empty\<rparr>"

text \<open>\<open>timedelta(minutes=m)\<close> in microseconds.\<close>

definition minutes :: "int \<Rightarrow> int" where
  "minutes m = m * 60000000"

text \<open>The list stored for a session, empty when the session is absent.\<close>

definition session_entries :: "MemoryService \<Rightarrow> string \<Rightarrow> MemoryEntry list" where
  "session_entries mem sid = (case short_term_memory mem sid of None \<Rightarrow> [] | Some es \<Rightarrow> es)"

definition cleanup_expired :: "MemoryService \<Rightarrow> string \<Rightarrow> int \<Rightarrow> MemoryService" where
  "cleanup_expired mem sid now =
     (case short_term_memory mem sid of
        None \<Rightarrow> mem
      | Some es \<Rightarrow>
          mem\<lparr>short_term_memory :=
                (short_term_memory mem)(sid \<mapsto> filter (\<lambda>e. expires_at e > now) es)\<rparr>)"

text \<open>
  \<open>store_short_term\<close> reads the clock for the timestamp (\<open>t_stamp\<close>), for the expiry
  (\<open>t_exp\<close>) and in the cleanup that follows the append (\<open>t_clean\<close>).
\<close>

definition store_short_term ::
  "MemoryService \<Rightarrow> string \<Rightarrow> string \<Rightarrow> pyval \<Rightarrow> int \<Rightarrow> int \<Rightarrow> int \<Rightarrow> int
     \<Rightarrow> MemoryService" where
  "store_short_term mem sid k v ttl_minutes t_stamp t_exp t_clean =
     (let es = (case short_term_memory mem sid of None \<Rightarrow> [] | Some es \<Rightarrow> es);
          entry = \<lparr>entry_key = k, entry_value = v, entry_timestamp = t_stamp,
                   expires_at = t_exp + minutes ttl_minutes\<rparr>;
          mem1 = mem\<lparr>short_term_memory := (short_term_memory mem)(sid \<mapsto> es @ [entry])\<rparr>
      in cleanup_expired mem1 sid t_clean)"

text \<open>The listing item \<open>{"key": e["key"], "value": e["value"]}\<close>.\<close>

definition entry_view :: "MemoryEntry \<Rightarrow> pyval" where
  "entry_view e = PDict [(''key'', PStr (entry_key e)), (''value'', entry_value e)]"

text \<open>
  \<open>get_short_term(session_id, key=None)\<close>.  The branch on \<open>key\<close> is Python truthiness: the
  keyed lookup is taken for a non-empty string, the listing for \<open>None\<close> and for \<open>""\<close>.
  The result is the value, \<open>None\<close>, or the list of items; the cleanup changes the store,
  so the new store is returned as well.
\<close>

definition get_short_term ::
  "MemoryService \<Rightarrow> string \<Rightarrow> string option \<Rightarrow> int \<Rightarrow> pyval \<times> MemoryService" where
  "get_short_term mem sid key now =
     (let keyed = (case key of None \<Rightarrow> False | Some k \<Rightarrow> k \<noteq> [])
      in case short_term_memory mem sid of
           None \<Rightarrow> (if keyed then PNone else PList [], mem)
         | Some _ \<Rightarrow>
             (let mem1 = cleanup_expired mem sid now;
                  es = session_entries mem1 sid
              in if keyed
                 then (case find (\<lambda>e. Some (entry_key e) = key) (rev es) of
                         Some e \<Rightarrow> (entry_value e, mem1)
                       | None \<Rightarrow> (PNone, mem1))
                 else (PList (map entry_view es), mem1)))"

text \<open>
  A sequence of \<open>store_short_term\<close> calls on one session; a call is
  (key, value, ttl in minutes, the three clock readings).
\<close>

type_synonym store_call = "string \<times> pyval \<times> int \<times> int \<times> int \<times> int"

fun store_all :: "MemoryService \<Rightarrow> string \<Rightarrow> store_call list \<Rightarrow> MemoryService" where
  "store_all mem sid [] = mem"
| "store_all mem sid ((k, v, ttl, t_stamp, t_exp, t_clean) # rest) =
     store_all (store_short_term mem sid k v ttl t_stamp t_exp t_clean) sid rest"

text \<open>The entry a call writes, and the clock reading of its cleanup.\<close>

definition call_entry :: "store_call \<Rightarrow> MemoryEntry" where
  "call_entry c = (case c of (k, v, ttl, t_stamp, t_exp, t_clean) \<Rightarrow>
     \<lparr>entry_key = k, entry_value = v, entry_timestamp = t_stamp,
      expires_at = t_exp + minutes ttl\<rparr>)"

definition call_clean :: "store_call \<Rightarrow> int" where
  "call_clean c = (case c of (k, v, ttl, t_stamp, t_exp, t_clean) \<Rightarrow> t_clean)"

text \<open>
  The value of the most recently stored entry with key \<open>k\<close> that has not expired at
  \<open>now\<close>, or \<open>None\<close>: the reading of the lookup that the stored calls are compared with.
\<close>

definition latest_live :: "MemoryEntry list \<Rightarrow> string \<Rightarrow> int \<Rightarrow> pyval" where
  "latest_live es k now =
     (case find (\<lambda>e. entry_key e = k) (rev (filter (\<lambda>e. expires_at e > now) es)) of
        Some e \<Rightarrow> entry_value e
      | None \<Rightarrow> PNone)"

section \<open>Task types, tasks and responses (models/schemas.py)\<close>

datatype TaskType =
    JOB_DESCRIPTION
  | RESUME_SCREENING
  | INTERVIEW_SCHEDULING
  | EMAIL_COMMUNICATION
  | ANALYTICS
  | OFFER_GENERATION

text \<open>The member's \<open>.value\<close>.\<close>

fun task_type_value :: "TaskType \<Rightarrow> string" where
  "task_type_value JOB_DESCRIPTION = ''job_description''"
| "task_type_value RESUME_SCREENING = ''resume_screening''"
| "task_type_value INTERVIEW_SCHEDULING = ''interview_scheduling''"
| "task_type_value EMAIL_COMMUNICATION = ''email_communication''"
| "task_type_value ANALYTICS = ''analytics''"
| "task_type_value OFFER_GENERATION = ''offer_generation''"

definition all_task_types :: "TaskType list" where
  "all_task_types = [JOB_DESCRIPTION, RESUME_SCREENING, INTERVIEW_SCHEDULING,
                     EMAIL_COMMUNICATION, ANALYTICS, OFFER_GENERATION]"

text \<open>The exceptions the modelled code raises; \<open>Exception\<close> carries the message.\<close>

datatype exn =
    KeyError string
  | ValueError string
  | TypeError string
  | AttributeError string
  | ValidationError string
  | Exception string

text \<open>
  \<open>TaskType(v)\<close>: the member whose value is \<open>v\<close>, \<open>ValueError\<close> for anything else.
\<close>

definition TaskType_of :: "pyval \<Rightarrow> exn + TaskType" where
  "TaskType_of v =
     (case v of
        PStr s \<Rightarrow>
          (case find (\<lambda>t. task_type_value t = s) all_task_types of
             Some t \<Rightarrow> Inr t
           | None \<Rightarrow> Inl (ValueError s))
      | _ \<Rightarrow> Inl (ValueError ''not a valid TaskType''))"

text \<open>\<open>d[k]\<close>: the value, \<open>KeyError\<close> for a missing key.\<close>

definition dict_item :: "pydict \<Rightarrow> string \<Rightarrow> exn + pyval" where
  "dict_item d k = (case map_of d k of None \<Rightarrow> Inl (KeyError k) | Some v \<Rightarrow> Inr v)"

record AgentTask =
  task_id :: string
  task_type :: TaskType
  description :: string
  input_data :: pydict
  priority :: int
  status :: string
  result :: "pydict option"
  task_created_at :: int

record AgentResponse =
  success :: bool
  message :: string
  data :: "pydict option"
  suggestions :: "string list option"
  next_actions :: "string list option"

text \<open>
  Pydantic's check of an \<open>Optional[List[str]]\<close> field of \<open>AgentResponse\<close>: a list of
  strings passes, anything else is a \<open>ValidationError\<close>.
\<close>

fun str_list :: "pyval list \<Rightarrow> string list option" where
  "str_list [] = Some []"
| "str_list (PStr s # rest) = (case str_list rest of None \<Rightarrow> None | Some ss \<Rightarrow> Some (s # ss))"
| "str_list (_ # rest) = None"

definition validate_str_list :: "pyval \<Rightarrow> exn + string list option" where
  "validate_str_list v =
     (case v of
        PNone \<Rightarrow> Inr None
      | PList xs \<Rightarrow>
          (case str_list xs of
             Some ss \<Rightarrow> Inr (Some ss)
           | None \<Rightarrow> Inl (ValidationError ''Input should be a valid string''))
      | _ \<Rightarrow> Inl (ValidationError ''Input should be a valid list''))"

section \<open>Agent dispatcher (agents/orchestrator.py)\<close>

text \<open>
  The registry built by \<open>OrchestratorAgent.__init__\<close>: a dictionary from task type to the
  agent object that handles it.
\<close>

datatype agent = jd_generator_agent | screening_agent | interview_agent

definition agents :: "TaskType \<Rightarrow> agent option" where
  "agents = [JOB_DESCRIPTION \<mapsto> jd_generator_agent,
             RESUME_SCREENING \<mapsto> screening_agent,
             INTERVIEW_SCHEDULING \<mapsto> interview_agent]"

text \<open>
  \<open>agent.execute(task_data)\<close> calls the reasoning service, the database and the mailer.  It
  is a parameter of the dispatcher: a function of the agent, the state \<open>'w\<close> of those
  collaborators and the task data, that returns a dictionary or raises (with \<open>str(e)\<close>),
  and leaves a new collaborator state.
\<close>

datatype outcome = Returns pydict | Raises string

type_synonym 'w execute = "agent \<Rightarrow> 'w \<Rightarrow> pydict \<Rightarrow> outcome \<times> 'w"

text \<open>
  An item of the plan's \<open>tasks\<close> list, the dictionary
  \<open>{'task_id', 'type', 'description', 'priority'}\<close> built by \<open>generate_execution_plan\<close>.
\<close>

record PlanTask =
  pt_task_id :: string
  pt_type :: string
  pt_description :: string
  pt_priority :: int

text \<open>
  The state of the dispatch loop: the result list, the shared context dictionary (mutated in
  place by the loop), the collaborators' state, and the trace of the calls of
  \<open>agent.execute\<close> made so far, each with the task id, the task data it was given and
  its outcome.
\<close>

record 'w dispatch =
  results :: "pydict list"
  shared :: pydict
  world :: 'w
  invoked :: "(string \<times> pydict \<times> outcome) list"

text \<open>
  The text of an enum member inside an f-string.  From Python 3.11 on, a \<open>str\<close>-mixin
  enum member is printed as \<open>TaskType.NAME\<close> (earlier interpreters print its value).
\<close>

fun task_type_name :: "TaskType \<Rightarrow> string" where
  "task_type_name JOB_DESCRIPTION = ''JOB_DESCRIPTION''"
| "task_type_name RESUME_SCREENING = ''RESUME_SCREENING''"
| "task_type_name INTERVIEW_SCHEDULING = ''INTERVIEW_SCHEDULING''"
| "task_type_name EMAIL_COMMUNICATION = ''EMAIL_COMMUNICATION''"
| "task_type_name ANALYTICS = ''ANALYTICS''"
| "task_type_name OFFER_GENERATION = ''OFFER_GENERATION''"

definition format_task_type :: "TaskType \<Rightarrow> string" where
  "format_task_type t = ''TaskType.'' @ task_type_name t"

text \<open>The context key \<open>f"task_{task['task_id']}_result"\<close>.\<close>

definition result_key :: "string \<Rightarrow> string" where
  "result_key tid = ''task_'' @ tid @ ''_result''"

text \<open>The task data \<open>{'user_request': context.get('user_request', ''), **context}\<close>.\<close>

definition task_data_of :: "pydict \<Rightarrow> pydict" where
  "task_data_of context =
     dict_merge [(''user_request'', dict_get_default context ''user_request'' (PStr ''''))] context"

text \<open>The three dictionaries the loop appends to the result list.\<close>

definition no_agent_result :: "PlanTask \<Rightarrow> TaskType \<Rightarrow> pydict" where
  "no_agent_result task ty =
     [(''task_id'', PStr (pt_task_id task)),
      (''success'', PBool False),
      (''error'', PStr (''No agent found for task type: '' @ format_task_type ty))]"

definition success_result :: "PlanTask \<Rightarrow> TaskType \<Rightarrow> pydict \<Rightarrow> pydict" where
  "success_result task ty r =
     dict_merge [(''task_id'', PStr (pt_task_id task)),
                 (''task_type'', PStr (task_type_value ty))] r"

definition failed_result :: "PlanTask \<Rightarrow> string \<Rightarrow> pydict" where
  "failed_result task e =
     [(''task_id'', PStr (pt_task_id task)),
      (''success'', PBool False),
      (''error'', PStr e)]"

text \<open>One iteration of the loop of \<open>_execute_tasks\<close>.\<close>

definition execute_task :: "'w execute \<Rightarrow> PlanTask \<Rightarrow> 'w dispatch \<Rightarrow> exn + 'w dispatch" where
  "execute_task run task st =
     (case TaskType_of (PStr (pt_type task)) of
        Inl e \<Rightarrow> Inl e
      | Inr ty \<Rightarrow>
          (case agents ty of
             None \<Rightarrow> Inr (st\<lparr>results := results st @ [no_agent_result task ty]\<rparr>)
           | Some a \<Rightarrow>
               (let task_data = task_data_of (shared st);
                    (out, w') = run a (world st) task_data;
                    st1 = st\<lparr>world := w',
                             invoked := invoked st @ [(pt_task_id task, task_data, out)]\<rparr>
                in case out of
                     Returns r \<Rightarrow>
                       Inr (st1\<lparr>results := results st1 @ [success_result task ty r],
                                shared := AList.update (result_key (pt_task_id task)) (PDict r)
                                            (shared st1)\<rparr>)
                   | Raises e \<Rightarrow>
                       Inr (st1\<lparr>results := results st1 @ [failed_result task e]\<rparr>))))"

fun execute_loop :: "'w execute \<Rightarrow> PlanTask list \<Rightarrow> 'w dispatch \<Rightarrow> exn + 'w dispatch" where
  "execute_loop run [] st = Inr st"
| "execute_loop run (task # rest) st =
     (case execute_task run task st of
        Inl e \<Rightarrow> Inl e
      | Inr st' \<Rightarrow> execute_loop run rest st')"

text \<open>\<open>_execute_tasks(tasks, session_id, context)\<close>, started with an empty result list.\<close>

definition execute_tasks ::
  "'w execute \<Rightarrow> PlanTask list \<Rightarrow> string \<Rightarrow> pydict \<Rightarrow> 'w \<Rightarrow> exn + 'w dispatch" where
  "execute_tasks run tasks sid context w =
     execute_loop run tasks \<lparr>results = [], shared = context, world = w, invoked = []\<rparr>"

section \<open>Response synthesis (agents/orchestrator.py)\<close>

text \<open>The decimal text of a natural number, as an f-string prints it.\<close>

fun string_of_nat :: "nat \<Rightarrow> string" where
  "string_of_nat n =
     (if n < 10 then [''0123456789'' ! n]
      else string_of_nat (n div 10) @ [''0123456789'' ! (n mod 10)])"

declare string_of_nat.simps [simp del]

text \<open>\<open>sep.join(parts)\<close> for strings.\<close>

fun join :: "string \<Rightarrow> string list \<Rightarrow> string" where
  "join sep [] = []"
| "join sep [s] = s"
| "join sep (s # t # rest) = s @ sep @ join sep (t # rest)"

definition newline :: string where
  "newline = [CHR 0x0A]"

text \<open>
  Iterating a value (\<open>list.extend\<close>, \<open>for x in v\<close>): a list gives its items, a dictionary
  its keys, a string its characters (here: its bytes), anything else is not iterable.
\<close>

definition py_iter :: "pyval \<Rightarrow> exn + pyval list" where
  "py_iter v =
     (case v of
        PList xs \<Rightarrow> Inr xs
      | PStr s \<Rightarrow> Inr (map (\<lambda>c. PStr [c]) s)
      | PDict d \<Rightarrow> Inr (map (\<lambda>(k, _). PStr k) d)
      | _ \<Rightarrow> Inl (TypeError ''object is not iterable''))"

text \<open>
  \<open>set(xs)\<close>: lists and dictionaries are unhashable; \<open>True\<close> and \<open>1\<close> (\<open>False\<close> and \<open>0\<close>) are
  equal as set elements, and the element inserted first is the one kept.
\<close>

fun hashable :: "pyval \<Rightarrow> bool" where
  "hashable (PList _) = False"
| "hashable (PDict _) = False"
| "hashable _ = True"

fun hash_key :: "pyval \<Rightarrow> pyval" where
  "hash_key (PBool b) = PInt (if b then 1 else 0)"
| "hash_key v = v"

fun dedup :: "pyval list \<Rightarrow> pyval list \<Rightarrow> pyval list" where
  "dedup seen [] = seen"
| "dedup seen (x # xs) =
     (if hash_key x \<in> set (map hash_key seen) then dedup seen xs else dedup (seen @ [x]) xs)"

text \<open>
  \<open>list(set(xs))\<close>.  The iteration order of a set is not specified: it is the parameter
  \<open>set_order\<close>, a rearrangement of the distinct elements.
\<close>

definition list_of_set :: "(pyval list \<Rightarrow> pyval list) \<Rightarrow> pyval list \<Rightarrow> exn + pyval list" where
  "list_of_set set_order xs =
     (if list_all hashable xs then Inr (set_order (dedup [] xs))
      else Inl (TypeError ''unhashable type''))"

text \<open>The loop over the successful results that collects the next actions.\<close>

fun collect_next_actions :: "pydict list \<Rightarrow> pyval list \<Rightarrow> exn + pyval list" where
  "collect_next_actions [] acc = Inr acc"
| "collect_next_actions (r # rest) acc =
     (if truthy (dict_get r ''next_actions'')
      then (case py_iter (dict_get r ''next_actions'') of
              Inl e \<Rightarrow> Inl e
            | Inr xs \<Rightarrow> collect_next_actions rest (acc @ xs))
      else collect_next_actions rest acc)"

text \<open>The messages of the successful results that have a truthy \<open>message\<close>.\<close>

definition collect_messages :: "pydict list \<Rightarrow> pyval list" where
  "collect_messages rs =
     map (\<lambda>r. dict_get r ''message'') (filter (\<lambda>r. truthy (dict_get r ''message'')) rs)"

text \<open>The well-known keys copied into the response data, a later result overwriting.\<close>

definition collect_data :: "pydict list \<Rightarrow> pydict" where
  "collect_data rs =
     foldl (\<lambda>d r.
        foldl (\<lambda>d k. case map_of r k of None \<Rightarrow> d | Some v \<Rightarrow> AList.update k v d) d
          [''job_id'', ''candidate_id'', ''interview_id'', ''job_description''])
       [] rs"

definition default_message :: string where
  "default_message = [CHR 0xE2, CHR 0x9C, CHR 0x85] @ '' Task completed successfully''"

text \<open>\<open>_generate_response(user_message, results, intent_analysis)\<close>.\<close>

definition generate_response ::
  "(pyval list \<Rightarrow> pyval list) \<Rightarrow> string \<Rightarrow> pydict list \<Rightarrow> pyval \<Rightarrow> exn + AgentResponse" where
  "generate_response set_order user_message rs intent_analysis =
     (let successful_results = filter (\<lambda>r. truthy (dict_get r ''success'')) rs;
          failed_results = filter (\<lambda>r. \<not> truthy (dict_get r ''success'')) rs
      in if successful_results = []
         then Inr \<lparr>success = False,
                   message = ''I encountered some issues processing your request:'',
                   data = Some [(''errors'', PList (map (\<lambda>r. dict_get r ''error'') failed_results))],
                   suggestions = None, next_actions = None\<rparr>
         else
           (case collect_next_actions successful_results [] of
              Inl e \<Rightarrow> Inl e
            | Inr all_next_actions \<Rightarrow>
                (case str_list (collect_messages successful_results) of
                   None \<Rightarrow> Inl (TypeError ''sequence item: expected str instance'')
                 | Some msgs \<Rightarrow>
                     (let response_data = collect_data successful_results;
                          joined = (if msgs \<noteq> [] then join newline msgs
                                    else default_message);
                          response_message =
                            (if length successful_results > 1
                             then joined @ newline @ newline @ ''Completed '' @
                                  string_of_nat (length successful_results) @ '' tasks.''
                             else joined)
                      in if all_next_actions = []
                         then Inr \<lparr>success = True, message = response_message,
                                   data = (if response_data \<noteq> [] then Some response_data else None),
                                   suggestions = None, next_actions = None\<rparr>
                         else
                           (case list_of_set set_order all_next_actions of
                              Inl e \<Rightarrow> Inl e
                            | Inr uniq \<Rightarrow>
                                (case str_list (take 5 uniq) of
                                   None \<Rightarrow> Inl (ValidationError ''Input should be a valid string'')
                                 | Some acts \<Rightarrow>
                                     Inr \<lparr>success = True, message = response_message,
                                          data = (if response_data \<noteq> [] then Some response_data
                                                  else None),
                                          suggestions = None, next_actions = Some acts\<rparr>))))))"

text \<open>
  The contract of a handler result that the synthesis relies on: \<open>message\<close> is a string
  when it is truthy, \<open>next_actions\<close> a list of strings when it is truthy.
\<close>

definition wf_result :: "pydict \<Rightarrow> bool" where
  "wf_result r =
     ((case dict_get r ''message'' of PStr _ \<Rightarrow> True | v \<Rightarrow> \<not> truthy v) \<and>
      (case dict_get r ''next_actions'' of PList xs \<Rightarrow> str_list xs \<noteq> None | v \<Rightarrow> \<not> truthy v))"

text \<open>The task type strings that \<open>TaskType(...)\<close> accepts.\<close>

definition valid_type :: "string \<Rightarrow> bool" where
  "valid_type s = (find (\<lambda>t. task_type_value t = s) all_task_types \<noteq> None)"

text \<open>
  Example collaborators for the concrete runs below: the job-description agent returns a
  result with two next actions, the screening agent raises, the interview agent returns a
  result with five next actions, one of them shared.  The collaborator state counts calls.
\<close>

definition sample_run :: "nat execute" where
  "sample_run a w d =
     (case a of
        jd_generator_agent \<Rightarrow>
          (Returns [(''success'', PBool True), (''message'', PStr ''Job created''),
                    (''job_id'', PStr ''j1''),
                    (''next_actions'', PList [PStr ''Post job'', PStr ''Screen resumes''])],
           Suc w)
      | screening_agent \<Rightarrow> (Raises ''resume_path required'', Suc w)
      | interview_agent \<Rightarrow>
          (Returns [(''success'', PBool True), (''message'', PStr ''Interview scheduled''),
                    (''interview_id'', PStr ''i1''),
                    (''next_actions'', PList [PStr ''Send invite'', PStr ''Screen resumes'',
                                              PStr ''Prepare questions'', PStr ''Book room'',
                                              PStr ''Notify panel''])],
           Suc w))"

definition sample_plan :: "PlanTask list" where
  "sample_plan =
     [\<lparr>pt_task_id = ''task_1'', pt_type = ''job_description'', pt_description = ''d1'',
       pt_priority = 1\<rparr>,
      \<lparr>pt_task_id = ''task_4'', pt_type = ''email_communication'', pt_description = ''d4'',
       pt_priority = 1\<rparr>,
      \<lparr>pt_task_id = ''task_2'', pt_type = ''resume_screening'', pt_description = ''d2'',
       pt_priority = 2\<rparr>,
      \<lparr>pt_task_id = ''task_3'', pt_type = ''interview_scheduling'', pt_description = ''d3'',
       pt_priority = 3\<rparr>,
      \<lparr>pt_task_id = ''task_5'', pt_type = ''job_description'', pt_description = ''d5'',
       pt_priority = 4\<rparr>]"

text \<open>Whether the registry has a handler for the task type named by a string.\<close>

definition has_agent :: "string \<Rightarrow> bool" where
  "has_agent s = (case TaskType_of (PStr s) of Inr ty \<Rightarrow> agents ty \<noteq> None | Inl _ \<Rightarrow> False)"

section \<open>Reasoning service (services/llm_service.py)\<close>

text \<open>
  The Gemini client is an external collaborator: \<open>api n\<close> is the outcome of the \<open>n\<close>-th
  call of \<open>client.models.generate_content\<close> made by the process, which either raises (with
  the text of the exception) or answers with a response whose \<open>text\<close> is a string or
  \<open>None\<close>.  The number of calls made so far is threaded through the functions.  Sleeping
  (rate limiting, back-off) has no effect on values and is left out.
\<close>

datatype api_outcome = ApiRaises string | ApiText string | ApiNoText

type_synonym api = "nat \<Rightarrow> api_outcome"

text \<open>\<open>sub in s\<close> for strings.\<close>

fun contains :: "string \<Rightarrow> string \<Rightarrow> bool" where
  "contains sub [] = (sub = [])"
| "contains sub (c # cs) = (take (length sub) (c # cs) = sub \<or> contains sub cs)"

definition rate_limited :: "string \<Rightarrow> bool" where
  "rate_limited error_msg = (contains ''429'' error_msg \<or> contains ''RESOURCE_EXHAUSTED'' error_msg)"

text \<open>
  The retry loop of \<open>generate_response\<close>: \<open>attempts api n k\<close> runs the last \<open>k\<close> of the
  \<open>max_retries\<close> iterations, \<open>n\<close> calls having been made.  The test
  \<open>attempt < max_retries - 1\<close> is \<open>k > 0\<close> after the current iteration is taken off.  The
  message of the rate-limit exception embeds the retry delay; it is abbreviated here.
\<close>

fun attempts :: "api \<Rightarrow> nat \<Rightarrow> nat \<Rightarrow> (exn + string option) \<times> nat" where
  "attempts api n 0 = (Inl (Exception ''Max retries exceeded''), n)"
| "attempts api n (Suc k) =
     (case api n of
        ApiText t \<Rightarrow> (Inr (Some t), Suc n)
      | ApiNoText \<Rightarrow> (Inr None, Suc n)
      | ApiRaises error_msg \<Rightarrow>
          (if rate_limited error_msg
           then (if k > 0 then attempts api (Suc n) k
                 else (Inl (Exception ''Rate limit exceeded. Your Gemini API quota is exhausted.''),
                       Suc n))
           else (if k > 0 then attempts api (Suc n) k
                 else (Inl (Exception (''Error generating response: '' @ error_msg)), Suc n))))"

text \<open>\<open>LLMService.generate_response(prompt, ..., max_retries=3)\<close>.\<close>

definition llm_generate_response :: "api \<Rightarrow> nat \<Rightarrow> nat \<Rightarrow> (exn + string option) \<times> nat" where
  "llm_generate_response api n max_retries = attempts api n max_retries"

text \<open>
  \<open>str.strip()\<close> (ASCII whitespace), \<open>startswith\<close>, \<open>endswith\<close>, and the search for
  \<open>\{.*\}\<close> with \<open>re.DOTALL\<close>: the text from the first opening brace to the last closing
  brace after it.
\<close>

definition is_space :: "char \<Rightarrow> bool" where
  "is_space c = (c \<in> set [CHR 0x09, CHR 0x0A, CHR 0x0B, CHR 0x0C, CHR 0x0D,
                           CHR 0x1C, CHR 0x1D, CHR 0x1E, CHR 0x1F, CHR 0x20])"

definition strip :: "string \<Rightarrow> string" where
  "strip s = rev (dropWhile is_space (rev (dropWhile is_space s)))"

definition startswith :: "string \<Rightarrow> string \<Rightarrow> bool" where
  "startswith p s = (take (length p) s = p)"

definition endswith :: "string \<Rightarrow> string \<Rightarrow> bool" where
  "endswith p s = (length p \<le> length s \<and> drop (length s - length p) s = p)"

definition fence :: string where
  "fence = [CHR 0x60, CHR 0x60, CHR 0x60]"

definition search_braces :: "string \<Rightarrow> string option" where
  "search_braces s =
     (let t = dropWhile (\<lambda>c. c \<noteq> CHR 0x7B) s
      in if t \<noteq> [] \<and> CHR 0x7D \<in> set (tl t)
         then Some (rev (dropWhile (\<lambda>c. c \<noteq> CHR 0x7D) (rev t)))
         else None)"

text \<open>
  \<open>generate_structured_output\<close>.  \<open>json.loads\<close> is the parameter \<open>loads\<close> (\<open>None\<close> for a
  \<open>JSONDecodeError\<close>).  The message of the parse failure, which embeds the decoder's text
  and the start of the response, is abbreviated.
\<close>

definition clean_response :: "string \<Rightarrow> string" where
  "clean_response response =
     (let r1 = strip response;
          r2 = (if startswith (fence @ ''json'') r1 then drop 7 r1
                else if startswith fence r1 then drop 3 r1 else r1);
          r3 = (if endswith fence r2 then take (length r2 - 3) r2 else r2)
      in strip r3)"

definition generate_structured_output ::
  "(string \<Rightarrow> pyval option) \<Rightarrow> api \<Rightarrow> nat \<Rightarrow> (exn + pyval) \<times> nat" where
  "generate_structured_output loads api n =
     (case llm_generate_response api n 3 of
        (Inl e, n') \<Rightarrow> (Inl e, n')
      | (Inr None, n') \<Rightarrow> (Inl (AttributeError ''NoneType object has no attribute strip''), n')
      | (Inr (Some response), n') \<Rightarrow>
          (let cleaned = clean_response response
           in case loads cleaned of
                Some v \<Rightarrow> (Inr v, n')
              | None \<Rightarrow>
                  (case search_braces cleaned of
                     None \<Rightarrow> (Inl (Exception ''Failed to parse JSON response''), n')
                   | Some g \<Rightarrow>
                       (case loads g of
                          Some v \<Rightarrow> (Inr v, n')
                        | None \<Rightarrow> (Inl (Exception ''Failed to parse JSON response''), n')))))"

definition analyze_intent ::
  "(string \<Rightarrow> pyval option) \<Rightarrow> api \<Rightarrow> nat \<Rightarrow> string \<Rightarrow> (exn + pyval) \<times> nat" where
  "analyze_intent loads api n user_message = generate_structured_output loads api n"

section \<open>Task decomposer (agents/task_decomposer.py)\<close>

text \<open>\<open>v.get\<close> on a value that is not a dictionary, and \<open>v[key]\<close> with a string key.\<close>

definition as_dict :: "pyval \<Rightarrow> exn + pydict" where
  "as_dict v = (case v of PDict d \<Rightarrow> Inr d
                | _ \<Rightarrow> Inl (AttributeError ''object has no attribute get''))"

definition subscript :: "pyval \<Rightarrow> string \<Rightarrow> exn + pyval" where
  "subscript v k = (case v of PDict d \<Rightarrow> dict_item d k
                    | _ \<Rightarrow> Inl (TypeError ''indices must be integers or object is not subscriptable''))"

text \<open>
  Building one \<open>AgentTask\<close> from the descriptor at index \<open>idx\<close>.  The arguments are
  evaluated in the order written; Pydantic then validates the fields: \<open>description\<close> must
  be a string, and the check of the integer field \<open>priority\<close> is the parameter
  \<open>validate_int\<close>.
\<close>

definition build_task ::
  "(pyval \<Rightarrow> int option) \<Rightarrow> string \<Rightarrow> int \<Rightarrow> nat \<Rightarrow> pyval \<Rightarrow> exn + AgentTask" where
  "build_task validate_int user_request now idx task_data =
     (case subscript task_data ''task_type'' of
        Inl e \<Rightarrow> Inl e
      | Inr tyv \<Rightarrow>
          (case TaskType_of tyv of
             Inl e \<Rightarrow> Inl e
           | Inr ty \<Rightarrow>
               (case subscript task_data ''description'' of
                  Inl e \<Rightarrow> Inl e
                | Inr dv \<Rightarrow>
                    (case as_dict task_data of
                       Inl e \<Rightarrow> Inl e
                     | Inr td \<Rightarrow>
                         (case (dv, validate_int (dict_get_default td ''priority'' (PInt 3))) of
                            (PStr d, Some p) \<Rightarrow>
                              Inr \<lparr>task_id = ''task_'' @ string_of_nat (idx + 1),
                                   task_type = ty,
                                   description = d,
                                   input_data =
                                     [(''user_request'', PStr user_request),
                                      (''dependencies'',
                                         dict_get_default td ''dependencies'' (PList [])),
                                      (''input_requirements'',
                                         dict_get_default td ''input_requirements'' (PList []))],
                                   priority = p,
                                   status = ''pending'',
                                   result = None,
                                   task_created_at = now\<rparr>
                          | _ \<Rightarrow> Inl (ValidationError ''validation error for AgentTask''))))))"

fun build_tasks ::
  "(pyval \<Rightarrow> int option) \<Rightarrow> string \<Rightarrow> int \<Rightarrow> nat \<Rightarrow> pyval list \<Rightarrow> exn + AgentTask list" where
  "build_tasks validate_int user_request now idx [] = Inr []"
| "build_tasks validate_int user_request now idx (task_data # rest) =
     (case build_task validate_int user_request now idx task_data of
        Inl e \<Rightarrow> Inl e
      | Inr task \<Rightarrow>
          (case build_tasks validate_int user_request now (Suc idx) rest of
             Inl e \<Rightarrow> Inl e
           | Inr tasks \<Rightarrow> Inr (task # tasks)))"

text \<open>
  The dictionary returned by \<open>decompose\<close>: the key \<open>questions\<close> is present only when
  clarification is required.  The prompt that \<open>decompose\<close> builds from the request and the
  context is text for the reasoning service, whose answers are given by \<open>api\<close>; it does
  not appear in the model.
\<close>

record decomposition =
  d_tasks :: "AgentTask list"
  d_requires_clarification :: bool
  d_questions :: "pyval option"

definition decompose ::
  "(string \<Rightarrow> pyval option) \<Rightarrow> (pyval \<Rightarrow> int option) \<Rightarrow> api \<Rightarrow> nat \<Rightarrow> string \<Rightarrow> pydict
     \<Rightarrow> int \<Rightarrow> (exn + decomposition) \<times> nat" where
  "decompose loads validate_int api n user_request context now =
     (case generate_structured_output loads api n of
        (Inl e, n') \<Rightarrow> (Inl e, n')
      | (Inr v, n') \<Rightarrow>
          (case as_dict v of
             Inl e \<Rightarrow> (Inl e, n')
           | Inr res \<Rightarrow>
               (case py_iter (dict_get_default res ''tasks'' (PList [])) of
                  Inl e \<Rightarrow> (Inl e, n')
                | Inr items \<Rightarrow>
                    (case build_tasks validate_int user_request now 0 items of
                       Inl e \<Rightarrow> (Inl e, n')
                     | Inr tasks \<Rightarrow>
                         (if truthy (dict_get res ''requires_clarification'')
                          then (Inr \<lparr>d_tasks = tasks, d_requires_clarification = True,
                                     d_questions =
                                       Some (dict_get_default res ''clarification_questions''
                                               (PList []))\<rparr>, n')
                          else (Inr \<lparr>d_tasks = tasks, d_requires_clarification = False,
                                     d_questions = None\<rparr>, n'))))))"

text \<open>
  \<open>validate_task_sequence\<close>: every dependency of every task must be one of the task ids;
  the loop returns \<open>False\<close> at the first one that is not.
\<close>

fun validate_loop :: "string list \<Rightarrow> AgentTask list \<Rightarrow> exn + bool" where
  "validate_loop task_ids [] = Inr True"
| "validate_loop task_ids (task # rest) =
     (case py_iter (dict_get_default (input_data task) ''dependencies'' (PList [])) of
        Inl e \<Rightarrow> Inl e
      | Inr dependencies \<Rightarrow>
          (if list_all (\<lambda>dep. dep \<in> set (map PStr task_ids)) dependencies
           then validate_loop task_ids rest
           else Inr False))"

definition validate_task_sequence :: "AgentTask list \<Rightarrow> exn + bool" where
  "validate_task_sequence tasks = validate_loop (map task_id tasks) tasks"

text \<open>\<open>prioritize_tasks\<close>: \<open>sorted(tasks, key=lambda t: t.priority)\<close>, a stable sort.\<close>

definition prioritize_tasks :: "AgentTask list \<Rightarrow> AgentTask list" where
  "prioritize_tasks tasks = sort_key priority tasks"

fun time_estimate :: "TaskType \<Rightarrow> nat" where
  "time_estimate JOB_DESCRIPTION = 2"
| "time_estimate RESUME_SCREENING = 3"
| "time_estimate INTERVIEW_SCHEDULING = 1"
| "time_estimate EMAIL_COMMUNICATION = 1"
| "time_estimate ANALYTICS = 2"
| "time_estimate OFFER_GENERATION = 2"

definition estimate_time :: "AgentTask list \<Rightarrow> string" where
  "estimate_time tasks =
     (let total_minutes = sum_list (map (\<lambda>t. time_estimate (task_type t)) tasks)
      in if total_minutes < 5 then ''Less than 5 minutes''
         else if total_minutes < 15 then ''5-15 minutes''
         else ''15+ minutes'')"

text \<open>
  The execution plan is a dictionary; its values are plain values, but for the list under
  \<open>tasks\<close>, whose items are the task dictionaries.
\<close>

datatype plan_value = PV pyval | PTasks "PlanTask list"

type_synonym plan = "(string \<times> plan_value) list"

definition plan_item :: "plan \<Rightarrow> string \<Rightarrow> exn + plan_value" where
  "plan_item d k = (case map_of d k of None \<Rightarrow> Inl (KeyError k) | Some v \<Rightarrow> Inr v)"

definition plan_task_of :: "AgentTask \<Rightarrow> PlanTask" where
  "plan_task_of task =
     \<lparr>pt_task_id = task_id task, pt_type = task_type_value (task_type task),
      pt_description = description task, pt_priority = priority task\<rparr>"

definition generate_execution_plan ::
  "(string \<Rightarrow> pyval option) \<Rightarrow> (pyval \<Rightarrow> int option) \<Rightarrow> api \<Rightarrow> nat \<Rightarrow> string \<Rightarrow> pydict
     \<Rightarrow> int \<Rightarrow> (exn + plan) \<times> nat" where
  "generate_execution_plan loads validate_int api n user_request context now =
     (case decompose loads validate_int api n user_request context now of
        (Inl e, n') \<Rightarrow> (Inl e, n')
      | (Inr dec, n') \<Rightarrow>
          (if d_requires_clarification dec
           then (case d_questions dec of
                   None \<Rightarrow> (Inl (KeyError ''questions''), n')
                 | Some q \<Rightarrow>
                     (Inr [(''status'', PV (PStr ''needs_clarification'')),
                           (''questions'', PV q),
                           (''plan'', PV PNone)], n'))
           else
             (case validate_task_sequence (d_tasks dec) of
                Inl e \<Rightarrow> (Inl e, n')
              | Inr ok \<Rightarrow>
                  (if \<not> ok
                   then (Inr [(''status'', PV (PStr ''invalid_sequence'')),
                              (''error'', PV (PStr ''Task dependencies are invalid'')),
                              (''plan'', PV PNone)], n')
                   else
                     (let prioritized_tasks = prioritize_tasks (d_tasks dec)
                      in (Inr [(''status'', PV (PStr ''ready'')),
                               (''total_tasks'', PV (PInt (int (length prioritized_tasks)))),
                               (''tasks'', PTasks (map plan_task_of prioritized_tasks)),
                               (''estimated_time'', PV (PStr (estimate_time prioritized_tasks)))],
                          n'))))))"

section \<open>Orchestrator (agents/orchestrator.py)\<close>

text \<open>\<open>MemoryService.get_context(session_id)\<close> without a context type.\<close>

definition get_context :: "MemoryService \<Rightarrow> string \<Rightarrow> pyval" where
  "get_context mem sid =
     (case context_cache mem sid of
        None \<Rightarrow> PNone
      | Some c \<Rightarrow> PDict (map (\<lambda>(k, dat, t). (k, PDict dat)) c))"

text \<open>
  \<open>MemoryService.get_relevant_context(session_id, query)\<close>: the last five live short-term
  items and the whole context snapshot.  The read cleans the short-term store.
\<close>

definition get_relevant_context ::
  "MemoryService \<Rightarrow> string \<Rightarrow> string \<Rightarrow> int \<Rightarrow> pydict \<times> MemoryService" where
  "get_relevant_context mem sid query now =
     (let (recent_memory, mem1) = get_short_term mem sid None now;
          context = (case recent_memory of
                       PList xs \<Rightarrow> (if xs \<noteq> [] then [(''recent_interactions'',
                                                          PList (slice_from (- 5) xs))] else [])
                     | _ \<Rightarrow> []);
          context = (case get_context mem1 sid of
                       PDict c \<Rightarrow> dict_merge context c
                     | _ \<Rightarrow> context)
      in (context, mem1))"

text \<open>\<open>_summarize_conversation(messages)\<close>.\<close>

definition summarize_conversation :: "ConversationMessage list \<Rightarrow> string" where
  "summarize_conversation msgs =
     (if msgs = [] then ''New conversation''
      else join '' | ''
             (map (\<lambda>msg. (if role msg = ''user'' then ''User'' else ''Assistant'') @ '': '' @
                          slice_to 100 (content msg))
                  (slice_from (- 3) msgs)))"

text \<open>
  The state the orchestrator works on: the conversation ledger, the memory service, the
  number of calls made to the reasoning service, the state of the handlers' collaborators
  and the trace of the handler calls made so far.
\<close>

record 'w system =
  ledger :: ConversationManager
  memory :: MemoryService
  llm_calls :: nat
  collaborators :: 'w
  handler_calls :: "(string \<times> pydict \<times> outcome) list"

text \<open>The collaborators of a request: the parameters of the functions above.\<close>

record 'w env =
  env_api :: api
  env_loads :: "string \<Rightarrow> pyval option"
  env_validate_int :: "pyval \<Rightarrow> int option"
  env_set_order :: "pyval list \<Rightarrow> pyval list"
  env_run :: "'w execute"

text \<open>
  The two clarification exits: build the response (Pydantic checks the suggestions), append
  the assistant message, return.
\<close>

definition clarification ::
  "'w system \<Rightarrow> string \<Rightarrow> string \<Rightarrow> pyval \<Rightarrow> int \<Rightarrow> (exn + AgentResponse) \<times> 'w system" where
  "clarification sys sid text questions now =
     (case validate_str_list questions of
        Inl e \<Rightarrow> (Inl e, sys)
      | Inr sugg \<Rightarrow>
          (Inr \<lparr>success = True, message = text, data = None, suggestions = sugg,
                next_actions = None\<rparr>,
           sys\<lparr>ledger := add_message (ledger sys) sid ''assistant'' text None now\<rparr>))"

text \<open>
  \<open>process_request(user_message, session_id, context)\<close>.  An exception leaves the function
  at the point where it is raised, with the state reached so far: the result is \<open>Inl\<close> of
  the exception.  The clock readings of one request are the parameter \<open>now\<close>.
\<close>

definition process_request ::
  "'w env \<Rightarrow> 'w system \<Rightarrow> string \<Rightarrow> string \<Rightarrow> pydict option \<Rightarrow> int
     \<Rightarrow> (exn + AgentResponse) \<times> 'w system" where
  "process_request env sys user_message sid context now =
     (let ledger1 = add_message (ledger sys) sid ''user'' user_message None now;
          conversation_history = get_messages ledger1 sid (Some 5);
          (memory_context, memory1) = get_relevant_context (memory sys) sid user_message now;
          full_context =
            dict_merge (dict_merge (case context of None \<Rightarrow> [] | Some c \<Rightarrow> c) memory_context)
              [(''conversation_summary'', PStr (summarize_conversation conversation_history))];
          sys1 = sys\<lparr>ledger := ledger1, memory := memory1\<rparr>
      in case analyze_intent (env_loads env) (env_api env) (llm_calls sys1) user_message of
           (Inl e, n1) \<Rightarrow> (Inl e, sys1\<lparr>llm_calls := n1\<rparr>)
         | (Inr intent_value, n1) \<Rightarrow>
             (let sys2 = sys1\<lparr>llm_calls := n1\<rparr>
              in case as_dict intent_value of
                   Inl e \<Rightarrow> (Inl e, sys2)
                 | Inr intent_analysis \<Rightarrow>
                     (if truthy (dict_get intent_analysis ''requires_clarification'')
                      then clarification sys2 sid ''I need some clarification to help you better:''
                             (dict_get_default intent_analysis ''clarification_questions'' (PList []))
                             now
                      else
                        (case generate_execution_plan (env_loads env) (env_validate_int env)
                                (env_api env) n1 user_message full_context now of
                           (Inl e, n2) \<Rightarrow> (Inl e, sys2\<lparr>llm_calls := n2\<rparr>)
                         | (Inr execution_plan, n2) \<Rightarrow>
                             (let sys3 = sys2\<lparr>llm_calls := n2\<rparr>
                              in case plan_item execution_plan ''status'' of
                                   Inl e \<Rightarrow> (Inl e, sys3)
                                 | Inr st \<Rightarrow>
                                     (if st = PV (PStr ''needs_clarification'')
                                      then (case plan_item execution_plan ''questions'' of
                                              Inl e \<Rightarrow> (Inl e, sys3)
                                            | Inr (PV q) \<Rightarrow>
                                                clarification sys3 sid ''I need more information:'' q now
                                            | Inr (PTasks _) \<Rightarrow>
                                                (Inl (ValidationError ''Input should be a valid list''),
                                                 sys3))
                                      else
                                        (case plan_item execution_plan ''tasks'' of
                                           Inl e \<Rightarrow> (Inl e, sys3)
                                         | Inr (PV _) \<Rightarrow>
                                             (Inl (TypeError ''tasks is not a list of tasks''), sys3)
                                         | Inr (PTasks tasks) \<Rightarrow>
                                             (case execute_tasks (env_run env) tasks sid full_context
                                                     (collaborators sys3) of
                                                Inl e \<Rightarrow> (Inl e, sys3)
                                              | Inr d \<Rightarrow>
                                                  (let sys4 = sys3\<lparr>collaborators := world d,
                                                                   handler_calls :=
                                                                     handler_calls sys3 @ invoked d\<rparr>
                                                   in case generate_response (env_set_order env)
                                                             user_message (results d)
                                                             (PDict intent_analysis) of
                                                        Inl e \<Rightarrow> (Inl e, sys4)
                                                      | Inr final_response \<Rightarrow>
                                                          (case dict_item intent_analysis ''intent'' of
                                                             Inl e \<Rightarrow> (Inl e, sys4)
                                                           | Inr intent \<Rightarrow>
                                                               (Inr final_response,
                                                                sys4\<lparr>memory :=
                                                                   store_short_term (memory sys4) sid
                                                                     ''last_action''
                                                                     (PDict [(''intent'', intent),
                                                                             (''results'',
                                                                              PList (map PDict (results d)))])
                                                                     60 now now now,
                                                                 ledger :=
                                                                   add_message (ledger sys4) sid
                                                                     ''assistant''
                                                                     (message final_response) None
                                                                     now\<rparr>)))))))))))"

text \<open>
  Example collaborators for the concrete requests below.  The reasoning service answers the
  intent call with \<open>I\<close> and the decomposition call with \<open>D\<close>; the decoder reads \<open>I\<close> as a
  clear analytics intent and \<open>D\<close> as one analytics task that depends on a task id which is
  not in the plan.
\<close>

definition sample_api :: api where
  "sample_api n = (if n = 0 then ApiText ''I'' else ApiText ''D'')"

definition sample_loads :: "string \<Rightarrow> pyval option" where
  "sample_loads s =
     (if s = ''I''
      then Some (PDict [(''intent'', PStr ''analytics''),
                        (''requires_clarification'', PBool False),
                        (''clarification_questions'', PList [])])
      else if s = ''D''
      then Some (PDict [(''tasks'',
                         PList [PDict [(''task_type'', PStr ''analytics''),
                                       (''description'', PStr ''report''),
                                       (''priority'', PInt 1),
                                       (''dependencies'', PList [PStr ''task_9''])]]),
                        (''requires_clarification'', PBool False),
                        (''clarification_questions'', PList [])])
      else None)"

definition int_only :: "pyval \<Rightarrow> int option" where
  "int_only v = (case v of PInt n \<Rightarrow> Some n | _ \<Rightarrow> None)"

definition sample_env :: "nat env" where
  "sample_env = \<lparr>env_api = sample_api, env_loads = sample_loads, env_validate_int = int_only,
                 env_set_order = id, env_run = sample_run\<rparr>"

text \<open>A reasoning service whose every call fails with a server error.\<close>

definition failing_api :: api where
  "failing_api n = ApiRaises ''503 UNAVAILABLE''"

definition failing_env :: "nat env" where
  "failing_env = \<lparr>env_api = failing_api, env_loads = sample_loads, env_validate_int = int_only,
                  env_set_order = id, env_run = sample_run\<rparr>"

definition fresh_system :: "nat system" where
  "fresh_system = \<lparr>ledger = conversation_manager, memory = new_memory, llm_calls = 0,
                   collaborators = 0, handler_calls = []\<rparr>"

text \<open>A reasoning service that answers the intent call and fails every later call.\<close>

definition late_failing_api :: api where
  "late_failing_api n = (if n = 0 then ApiText ''I'' else ApiRaises ''503 UNAVAILABLE'')"

definition late_failing_env :: "nat env" where
  "late_failing_env = \<lparr>env_api = late_failing_api, env_loads = sample_loads,
                       env_validate_int = int_only, env_set_order = id, env_run = sample_run\<rparr>"

text \<open>
  A reasoning service that answers the decomposition call with \<open>T\<close>, read by the decoder
  as three independent tasks emitted with the priorities 3, 1 and 1.
\<close>

definition ordering_api :: api where
  "ordering_api n = (if n = 0 then ApiText ''I'' else ApiText ''T'')"

definition ordering_loads :: "string \<Rightarrow> pyval option" where
  "ordering_loads s =
     (if s = ''T''
      then Some (PDict [(''tasks'',
                         PList [PDict [(''task_type'', PStr ''interview_scheduling''),
                                       (''description'', PStr ''schedule''),
                                       (''priority'', PInt 3),
                                       (''dependencies'', PList [])],
                                PDict [(''task_type'', PStr ''job_description''),
                                       (''description'', PStr ''write''),
                                       (''priority'', PInt 1),
                                       (''dependencies'', PList [])],
                                PDict [(''task_type'', PStr ''resume_screening''),
                                       (''description'', PStr ''screen''),
                                       (''priority'', PInt 1),
                                       (''dependencies'', PList [PStr ''task_2''])]]),
                        (''requires_clarification'', PBool False),
                        (''clarification_questions'', PList [])])
      else sample_loads s)"

definition ordering_env :: "nat env" where
  "ordering_env = \<lparr>env_api = ordering_api, env_loads = ordering_loads,
                   env_validate_int = int_only, env_set_order = rev, env_run = sample_run\<rparr>"

section \<open>Properties of the conversation ledger\<close>

lemma slice_from_neg_last:
  "0 < n \<Longrightarrow> slice_from (- n) xs = drop (length xs - nat n) xs"
proof -
  assume n: "0 < n"
  have "nat (int (length xs) + - n) = length xs - nat n" using n by arith
  then show ?thesis using n by (simp add: slice_from_def)
qed

lemma add_message_max_history [simp]:
  "max_history (add_message mgr sid r c md now) = max_history mgr"
  by (simp add: add_message_def Let_def)

lemma add_message_creates:
  "sessions (add_message mgr sid r c md now) sid \<noteq> None"
  by (simp add: add_message_def Let_def)

lemma add_message_other:
  "sid' \<noteq> sid \<Longrightarrow> sessions (add_message mgr sid r c md now) sid' = sessions mgr sid'"
  by (simp add: add_message_def Let_def)

text \<open>
  For a positive cap the ledger holds the last \<open>max_history\<close> messages of the old list plus
  the new message, hence at most \<open>max_history\<close> of them.
\<close>

lemma add_message_keeps_last:
  assumes "0 < max_history mgr"
  shows "get_messages (add_message mgr sid r c md now) sid None =
         (let old = get_messages mgr sid None;
              appended = old @ [\<lparr>role = r, content = c, timestamp = now,
                                 metadata = (case md of None \<Rightarrow> [] | Some d \<Rightarrow> d)\<rparr>]
          in drop (length appended - nat (max_history mgr)) appended)"
  using assms
  by (cases "sessions mgr sid")
     (auto simp: add_message_def get_messages_def get_session_def Let_def new_state_def
                 slice_from_neg_last)

lemma add_message_bounded:
  assumes "0 < max_history mgr"
  shows "int (length (get_messages (add_message mgr sid r c md now) sid None))
           \<le> max_history mgr"
  using assms by (simp add: add_message_keeps_last Let_def)

lemma add_messages_max_history [simp]:
  "max_history (add_messages mgr sid ops) = max_history mgr"
  by (induction mgr sid ops rule: add_messages.induct) simp_all

lemma add_messages_bounded:
  assumes "0 < max_history mgr" "ops \<noteq> []"
  shows "int (length (get_messages (add_messages mgr sid ops) sid None)) \<le> max_history mgr"
  using assms
proof (induction mgr sid ops rule: add_messages.induct)
  case (1 mgr sid)
  then show ?case by simp
next
  case (2 mgr sid r c md now rest)
  show ?case
  proof (cases rest)
    case Nil
    then show ?thesis using "2.prems" by (simp add: add_message_bounded)
  next
    case (Cons a list)
    then show ?thesis using "2.IH" "2.prems" by simp
  qed
qed

text \<open>
  C6.  The ledger is meant never to hold more than the configured maximum \<open>N\<close> of messages
  after an append.  With \<open>N = 0\<close> the truncation \<open>messages[-0:]\<close> is the whole list: after
  three appends to a fresh session the ledger holds three messages, the oldest included.
\<close>

theorem add_message_cap_zero_unbounded:
  "map content (get_messages
      (add_messages (new_manager 0) ''s''
         [(''user'', ''a'', None, 1), (''assistant'', ''b'', None, 2), (''user'', ''c'', None, 3)])
      ''s'' None) = [''a'', ''b'', ''c'']"
  by (simp add: new_manager_def add_message_def get_messages_def get_session_def Let_def
                new_state_def slice_from_def)

section \<open>Properties of the memory service\<close>

lemma session_entries_cleanup:
  "session_entries (cleanup_expired mem sid now) sid =
     filter (\<lambda>e. expires_at e > now) (session_entries mem sid)"
  by (simp add: session_entries_def cleanup_expired_def split: option.splits)

lemma session_entries_store:
  "session_entries (store_short_term mem sid k v ttl ts te tc) sid =
     filter (\<lambda>e. expires_at e > tc)
       (session_entries mem sid @ [call_entry (k, v, ttl, ts, te, tc)])"
  by (simp add: store_short_term_def Let_def session_entries_def cleanup_expired_def call_entry_def
           split: option.splits)

lemma store_present:
  "short_term_memory (store_short_term mem sid k v ttl ts te tc) sid \<noteq> None"
  by (simp add: store_short_term_def Let_def cleanup_expired_def split: option.splits)

lemma get_keyed:
  assumes "k \<noteq> []"
  shows "fst (get_short_term mem sid (Some k) now) = latest_live (session_entries mem sid) k now"
  using assms
  by (auto simp: get_short_term_def Let_def latest_live_def session_entries_cleanup
                 session_entries_def cleanup_expired_def
           split: option.splits)

lemma live_store_all:
  assumes "\<forall>c \<in> set calls. call_clean c \<le> now"
  shows "filter (\<lambda>e. expires_at e > now) (session_entries (store_all mem sid calls) sid) =
         filter (\<lambda>e. expires_at e > now) (session_entries mem sid @ map call_entry calls)"
  using assms
proof (induction mem sid calls rule: store_all.induct)
  case (1 mem sid)
  then show ?case by simp
next
  case (2 mem sid k v ttl ts te tc rest)
  have tc: "tc \<le> now" using "2.prems" by (simp add: call_clean_def)
  have sub: "filter (\<lambda>e. expires_at e > now) (filter (\<lambda>e. expires_at e > tc) xs) =
             filter (\<lambda>e. expires_at e > now) xs" for xs :: "MemoryEntry list"
    using tc by (induction xs) auto
  have rest: "\<forall>c \<in> set rest. call_clean c \<le> now" using "2.prems" by simp
  have "filter (\<lambda>e. expires_at e > now)
          (session_entries (store_all (store_short_term mem sid k v ttl ts te tc) sid rest) sid) =
        filter (\<lambda>e. expires_at e > now)
          (session_entries (store_short_term mem sid k v ttl ts te tc) sid @ map call_entry rest)"
    using "2.IH"[OF rest] .
  also have "\<dots> = filter (\<lambda>e. expires_at e > now)
          (filter (\<lambda>e. expires_at e > tc)
             (session_entries mem sid @ [call_entry (k, v, ttl, ts, te, tc)])) @
        filter (\<lambda>e. expires_at e > now) (map call_entry rest)"
    by (simp only: session_entries_store filter_append)
  also have "\<dots> = filter (\<lambda>e. expires_at e > now)
          (session_entries mem sid @ [call_entry (k, v, ttl, ts, te, tc)]) @
        filter (\<lambda>e. expires_at e > now) (map call_entry rest)"
    by (simp only: sub)
  finally show ?case by simp
qed


lemma find_app:
  "find P (xs @ ys) = (case find P xs of None \<Rightarrow> find P ys | Some x \<Rightarrow> Some x)"
  by (induction xs) auto

lemma latest_live_none:
  assumes "\<forall>e \<in> set es. entry_key e = k \<longrightarrow> expires_at e \<le> now"
  shows "latest_live es k now = PNone"
proof -
  have "find (\<lambda>e. entry_key e = k) (rev (filter (\<lambda>e. expires_at e > now) es)) = None"
    using assms by (auto simp: find_None_iff)
  then show ?thesis by (simp add: latest_live_def)
qed

lemma latest_live_last:
  assumes "entry_key e = k" "expires_at e > now"
    and "\<forall>x \<in> set post. entry_key x = k \<longrightarrow> expires_at x \<le> now"
  shows "latest_live (pre @ [e] @ post) k now = entry_value e"
proof -
  have "find (\<lambda>e. entry_key e = k) (rev (filter (\<lambda>e. expires_at e > now) post)) = None"
    using assms(3) by (auto simp: find_None_iff)
  then show ?thesis using assms(1,2)
    by (simp add: latest_live_def find_app)
qed

lemma get_listing:
  "fst (get_short_term mem sid None now) =
     PList (map entry_view (filter (\<lambda>e. expires_at e > now) (session_entries mem sid)))"
  by (auto simp: get_short_term_def Let_def session_entries_cleanup
                 session_entries_def cleanup_expired_def
           split: option.splits)

lemma get_state:
  "session_entries (snd (get_short_term mem sid key now)) sid =
     filter (\<lambda>e. expires_at e > now) (session_entries mem sid)"
  by (auto simp: get_short_term_def Let_def session_entries_cleanup
                 session_entries_def cleanup_expired_def
           split: option.splits)

lemma get_ignores_expired:
  assumes "short_term_memory mem sid = Some es" "expires_at e \<le> now"
  shows "get_short_term (mem\<lparr>short_term_memory := (short_term_memory mem)(sid \<mapsto> removeAll e es)\<rparr>) sid key now
         = get_short_term mem sid key now"
proof -
  have f: "filter (\<lambda>x. expires_at x > now) (removeAll e es) = filter (\<lambda>x. expires_at x > now) es"
    using assms(2) by (induction es) auto
  show ?thesis using assms(1)
    by (simp add: get_short_term_def Let_def cleanup_expired_def session_entries_def f)
qed


text \<open>
  C7.  An entry of a session whose expiry time has passed (\<open>expires_at \<le> now\<close>) is absent
  from every read made at \<open>now\<close>: the read removes it from the store, the full listing is
  the list of the other, live entries, a keyed lookup returns \<open>None\<close> when every entry
  under that key has expired, and any read gives what it would give had the entry been
  deleted beforehand.  A write whose cleanup runs at or after \<open>now\<close> removes it as well.
  The store changes only through these operations: there is no timer.
\<close>

theorem expired_entry_absent:
  assumes "short_term_memory mem sid = Some es" and "e \<in> set es" and "expires_at e \<le> now"
  shows "e \<notin> set (session_entries (snd (get_short_term mem sid key now)) sid)
       \<and> fst (get_short_term mem sid None now) =
           PList (map entry_view (filter (\<lambda>x. x \<noteq> e \<and> expires_at x > now) es))
       \<and> (k \<noteq> [] \<and> (\<forall>x \<in> set es. entry_key x = k \<longrightarrow> expires_at x \<le> now) \<longrightarrow>
           fst (get_short_term mem sid (Some k) now) = PNone)
       \<and> get_short_term mem sid key now =
           get_short_term
             (mem\<lparr>short_term_memory := (short_term_memory mem)(sid \<mapsto> removeAll e es)\<rparr>)
             sid key now
       \<and> (now \<le> tc \<longrightarrow>
           e \<notin> set (session_entries (store_short_term mem sid k' v ttl ts te tc) sid))"
proof -
  have se: "session_entries mem sid = es" using assms(1) by (simp add: session_entries_def)
  have a: "e \<notin> set (session_entries (snd (get_short_term mem sid key now)) sid)"
    using assms(3) by (simp add: get_state)
  have "filter (\<lambda>x. x \<noteq> e \<and> expires_at x > now) es = filter (\<lambda>x. expires_at x > now) es"
    using assms(3) by (intro filter_cong) auto
  then have b: "fst (get_short_term mem sid None now) =
           PList (map entry_view (filter (\<lambda>x. x \<noteq> e \<and> expires_at x > now) es))"
    by (simp add: get_listing se)
  have c: "k \<noteq> [] \<and> (\<forall>x \<in> set es. entry_key x = k \<longrightarrow> expires_at x \<le> now) \<longrightarrow>
           fst (get_short_term mem sid (Some k) now) = PNone"
    by (simp add: get_keyed se latest_live_none)
  have d: "get_short_term mem sid key now =
           get_short_term
             (mem\<lparr>short_term_memory := (short_term_memory mem)(sid \<mapsto> removeAll e es)\<rparr>)
             sid key now"
    using get_ignores_expired[OF assms(1,3)] by simp
  have f: "now \<le> tc \<longrightarrow>
           e \<notin> set (session_entries (store_short_term mem sid k' v ttl ts te tc) sid)"
    using assms(3) by (auto simp: session_entries_store)
  show ?thesis using a b c d f by blast
qed

theorem expired_entry_absent_witness:
  "fst (get_short_term
          (new_memory\<lparr>short_term_memory := [''s'' \<mapsto>
             [\<lparr>entry_key = ''a'', entry_value = PInt 1, entry_timestamp = 0, expires_at = 10\<rparr>,
              \<lparr>entry_key = ''b'', entry_value = PInt 2, entry_timestamp = 0, expires_at = 90\<rparr>]]\<rparr>)
          ''s'' (Some ''a'') 20) = PNone
   \<and> fst (get_short_term
          (new_memory\<lparr>short_term_memory := [''s'' \<mapsto>
             [\<lparr>entry_key = ''a'', entry_value = PInt 1, entry_timestamp = 0, expires_at = 10\<rparr>,
              \<lparr>entry_key = ''b'', entry_value = PInt 2, entry_timestamp = 0, expires_at = 90\<rparr>]]\<rparr>)
          ''s'' None 20) = PList [PDict [(''key'', PStr ''b''), (''value'', PInt 2)]]"
proof -
  let ?e = "\<lparr>entry_key = ''a'', entry_value = PInt 1, entry_timestamp = 0, expires_at = 10\<rparr>"
  let ?es = "[?e, \<lparr>entry_key = ''b'', entry_value = PInt 2, entry_timestamp = 0,
                      expires_at = 90\<rparr>]"
  let ?mem = "new_memory\<lparr>short_term_memory := [''s'' \<mapsto> ?es]\<rparr>"
  have 1: "short_term_memory ?mem ''s'' = Some ?es" by simp
  have 2: "?e \<in> set ?es" by simp
  have 3: "expires_at ?e \<le> 20" by simp
  have 4: "''a'' \<noteq> [] \<and> (\<forall>x \<in> set ?es. entry_key x = ''a'' \<longrightarrow> expires_at x \<le> 20)" by simp
  note h = expired_entry_absent[OF 1 2 3, where key = None and k = "''a''" and tc = 20
        and k' = "''c''" and v = PNone and ttl = 1 and ts = 0 and te = 0]
  have keyed: "fst (get_short_term ?mem ''s'' (Some ''a'') 20) = PNone"
    using h 4 by blast
  have "fst (get_short_term ?mem ''s'' None 20) =
          PList (map entry_view (filter (\<lambda>x. x \<noteq> ?e \<and> expires_at x > 20) ?es))"
    using h by blast
  then have listing: "fst (get_short_term ?mem ''s'' None 20) =
          PList [PDict [(''key'', PStr ''b''), (''value'', PInt 2)]]"
    by (simp add: entry_view_def)
  show ?thesis using keyed listing by blast
qed

text \<open>
  C10.  After any sequence of \<open>store_short_term\<close> calls on a session of a fresh store, a
  lookup with a (non-empty) key at a time not before the stores returns the value of the
  most recently stored entry with that key that has not expired: a later live write
  shadows the earlier ones, and the result is \<open>None\<close> when no live entry has the key.
\<close>

theorem get_short_term_latest:
  assumes "k \<noteq> []" and "\<forall>c \<in> set calls. call_clean c \<le> now"
  shows "fst (get_short_term (store_all new_memory sid calls) sid (Some k) now) =
           latest_live (map call_entry calls) k now
       \<and> ((\<forall>c \<in> set calls. entry_key (call_entry c) = k \<longrightarrow> expires_at (call_entry c) \<le> now) \<longrightarrow>
           fst (get_short_term (store_all new_memory sid calls) sid (Some k) now) = PNone)
       \<and> (\<forall>pre c post. calls = pre @ [c] @ post \<and> entry_key (call_entry c) = k
             \<and> expires_at (call_entry c) > now
             \<and> (\<forall>x \<in> set post. entry_key (call_entry x) = k \<longrightarrow> expires_at (call_entry x) \<le> now)
           \<longrightarrow> fst (get_short_term (store_all new_memory sid calls) sid (Some k) now) =
                 entry_value (call_entry c))"
proof -
  have "session_entries new_memory sid = []" by (simp add: session_entries_def new_memory_def)
  then have main: "fst (get_short_term (store_all new_memory sid calls) sid (Some k) now) =
           latest_live (map call_entry calls) k now"
    using assms live_store_all[OF assms(2), of new_memory sid]
    by (simp add: get_keyed latest_live_def)
  have none: "(\<forall>c \<in> set calls. entry_key (call_entry c) = k \<longrightarrow> expires_at (call_entry c) \<le> now) \<longrightarrow>
           latest_live (map call_entry calls) k now = PNone"
    by (intro impI latest_live_none) auto
  have last: "latest_live (map call_entry calls) k now = entry_value (call_entry c)"
    if "calls = pre @ [c] @ post" "entry_key (call_entry c) = k" "expires_at (call_entry c) > now"
       "\<forall>x \<in> set post. entry_key (call_entry x) = k \<longrightarrow> expires_at (call_entry x) \<le> now"
    for pre c post
    using that latest_live_last[of "call_entry c" k now "map call_entry post" "map call_entry pre"]
    by simp
  show ?thesis using main none last by metis
qed

theorem get_short_term_latest_witness:
  "fst (get_short_term
          (store_all new_memory ''s''
             [(''last_action'', PInt 1, 60, 0, 0, 0),
              (''last_action'', PInt 2, 60, 5, 5, 5),
              (''other'', PInt 3, 60, 6, 6, 6)])
          ''s'' (Some ''last_action'') 7) = PInt 2"
  using get_short_term_latest
    [of "''last_action''"
        "[(''last_action'', PInt 1, 60, 0, 0, 0),
          (''last_action'', PInt 2, 60, 5, 5, 5),
          (''other'', PInt 3, 60, 6, 6, 6)]"
        7 "''s''"]
  by (simp add: call_clean_def call_entry_def latest_live_def minutes_def)

section \<open>Properties of the dispatcher\<close>

lemma map_of_dict_merge:
  "map_of (dict_merge a b) k = (case map_of (rev b) k of Some v \<Rightarrow> Some v | None \<Rightarrow> map_of a k)"
proof (induction b arbitrary: a)
  case Nil
  then show ?case by (simp add: dict_merge_def)
next
  case (Cons p b)
  obtain k' v' where p: "p = (k', v')" by (cases p)
  have "dict_merge a (p # b) = dict_merge (AList.update k' v' a) b"
    by (simp add: dict_merge_def p)
  then show ?case using Cons.IH[of "AList.update k' v' a"]
    by (auto simp: p update_conv' map_add_def split: option.splits)
qed

lemma distinct_dict_merge:
  "distinct (map fst a) \<Longrightarrow> distinct (map fst (dict_merge a b))"
proof (induction b arbitrary: a)
  case Nil
  then show ?case by (simp add: dict_merge_def)
next
  case (Cons p b)
  obtain k' v' where p: "p = (k', v')" by (cases p)
  have "dict_merge a (p # b) = dict_merge (AList.update k' v' a) b"
    by (simp add: dict_merge_def p)
  then show ?case using Cons.IH[of "AList.update k' v' a"] Cons.prems
    by (simp add: distinct_update)
qed

lemma map_of_rev_distinct:
  "distinct (map fst xs) \<Longrightarrow> map_of (rev xs) = map_of xs"
  by (induction xs) (auto simp: map_add_def fun_eq_iff split: option.splits dest: map_of_SomeD
        intro: rev_image_eqI)

lemma result_key_inj: "result_key a = result_key b \<Longrightarrow> a = b"
  by (simp add: result_key_def)

lemma result_key_not_request: "result_key a \<noteq> ''user_request''"
  by (simp add: result_key_def)

lemma task_data_lookup:
  assumes "distinct (map fst c)"
  shows "map_of (task_data_of c) (result_key a) = map_of c (result_key a)"
  using assms
  by (simp add: task_data_of_def map_of_dict_merge map_of_rev_distinct result_key_not_request
           split: option.splits)

lemma TaskType_of_valid:
  assumes "valid_type s"
  shows "\<exists>ty. TaskType_of (PStr s) = Inr ty"
  using assms by (auto simp: valid_type_def TaskType_of_def split: option.splits)

lemma execute_task_cases:
  assumes "valid_type (pt_type t)"
  obtains
    (no_agent) ty where "TaskType_of (PStr (pt_type t)) = Inr ty" "agents ty = None"
      "execute_task run t st = Inr (st\<lparr>results := results st @ [no_agent_result t ty]\<rparr>)"
  | (returned) ty a r w' where "TaskType_of (PStr (pt_type t)) = Inr ty" "agents ty = Some a"
      "run a (world st) (task_data_of (shared st)) = (Returns r, w')"
      "execute_task run t st =
         Inr \<lparr>results = results st @ [success_result t ty r],
              shared = AList.update (result_key (pt_task_id t)) (PDict r) (shared st),
              world = w',
              invoked = invoked st @ [(pt_task_id t, task_data_of (shared st), Returns r)]\<rparr>"
  | (raised) ty a e w' where "TaskType_of (PStr (pt_type t)) = Inr ty" "agents ty = Some a"
      "run a (world st) (task_data_of (shared st)) = (Raises e, w')"
      "execute_task run t st =
         Inr \<lparr>results = results st @ [failed_result t e],
              shared = shared st,
              world = w',
              invoked = invoked st @ [(pt_task_id t, task_data_of (shared st), Raises e)]\<rparr>"
proof -
  obtain ty where ty: "TaskType_of (PStr (pt_type t)) = Inr ty"
    using TaskType_of_valid[OF assms] by blast
  show thesis
  proof (cases "agents ty")
    case None
    then show ?thesis using ty no_agent by (simp add: execute_task_def)
  next
    case (Some a)
    obtain out w' where run: "run a (world st) (task_data_of (shared st)) = (out, w')"
      by (cases "run a (world st) (task_data_of (shared st))")
    show ?thesis
    proof (cases out)
      case (Returns r)
      then show ?thesis using ty Some run returned[of ty a r w']
        by (simp add: execute_task_def Let_def)
    next
      case (Raises e)
      then show ?thesis using ty Some run raised[of ty a e w']
        by (simp add: execute_task_def Let_def)
    qed
  qed
qed

lemma success_result_task_id:
  assumes "''task_id'' \<notin> fst ` set r"
  shows "dict_get (success_result t ty r) ''task_id'' = PStr (pt_task_id t)"
proof -
  have "map_of (rev r) ''task_id'' = None" using assms by (simp add: map_of_eq_None_iff)
  then show ?thesis by (simp add: dict_get_def success_result_def map_of_dict_merge)
qed

lemma execute_loop_results:
  assumes "\<forall>t \<in> set tasks. valid_type (pt_type t)"
  shows "\<exists>st' rs tr. execute_loop run tasks st = Inr st'
           \<and> results st' = results st @ rs \<and> invoked st' = invoked st @ tr
           \<and> length rs = length tasks
           \<and> ((\<forall>a w d r w'. run a w d = (Returns r, w') \<longrightarrow> ''task_id'' \<notin> fst ` set r) \<longrightarrow>
                map (\<lambda>r. dict_get r ''task_id'') rs = map (\<lambda>t. PStr (pt_task_id t)) tasks)
           \<and> (\<forall>i < length tasks. \<forall>ty. TaskType_of (PStr (pt_type (tasks ! i))) = Inr ty \<and> agents ty = None
                \<longrightarrow> rs ! i = no_agent_result (tasks ! i) ty)
           \<and> (\<forall>tid d e. (tid, d, Raises e) \<in> set tr \<longrightarrow>
                (\<exists>i < length tasks. pt_task_id (tasks ! i) = tid \<and> rs ! i = failed_result (tasks ! i) e))"
  using assms
proof (induction tasks arbitrary: st)
  case Nil
  then show ?case by simp
next
  case (Cons t ts)
  have vt: "valid_type (pt_type t)" and vts: "\<forall>t \<in> set ts. valid_type (pt_type t)"
    using Cons.prems by simp_all
  let ?keeps = "\<forall>a w d r w'. run a w d = (Returns r, w') \<longrightarrow> ''task_id'' \<notin> fst ` set r"
  have step: "\<exists>st1 r tr1. execute_task run t st = Inr st1 \<and> results st1 = results st @ [r]
        \<and> invoked st1 = invoked st @ tr1
        \<and> (?keeps \<longrightarrow> dict_get r ''task_id'' = PStr (pt_task_id t))
        \<and> (\<forall>ty. TaskType_of (PStr (pt_type t)) = Inr ty \<and> agents ty = None \<longrightarrow> r = no_agent_result t ty)
        \<and> (\<forall>tid d e. (tid, d, Raises e) \<in> set tr1 \<longrightarrow> pt_task_id t = tid \<and> r = failed_result t e)"
    using vt
  proof (cases rule: execute_task_cases[where t = t and run = run and st = st])
    case (no_agent ty)
    then show ?thesis
      by (intro exI[of _ "st\<lparr>results := results st @ [no_agent_result t ty]\<rparr>"]
                exI[of _ "no_agent_result t ty"] exI[of _ "[]"])
         (simp add: no_agent_result_def dict_get_def)
  next
    case (returned ty a r w')
    have idr: "?keeps \<longrightarrow> dict_get (success_result t ty r) ''task_id'' = PStr (pt_task_id t)"
    proof
      assume k: ?keeps
      from k returned(3) have "''task_id'' \<notin> fst ` set r" by blast
      then show "dict_get (success_result t ty r) ''task_id'' = PStr (pt_task_id t)"
        by (rule success_result_task_id)
    qed
    show ?thesis
      apply (rule exI[of _ "\<lparr>results = results st @ [success_result t ty r],
              shared = AList.update (result_key (pt_task_id t)) (PDict r) (shared st),
              world = w',
              invoked = invoked st @ [(pt_task_id t, task_data_of (shared st), Returns r)]\<rparr>"])
      apply (rule exI[of _ "success_result t ty r"])
      apply (rule exI[of _ "[(pt_task_id t, task_data_of (shared st), Returns r)]"])
      using returned(1,2,4) idr by simp
  next
    case (raised ty a e w')
    show ?thesis
      apply (rule exI[of _ "\<lparr>results = results st @ [failed_result t e],
              shared = shared st,
              world = w',
              invoked = invoked st @ [(pt_task_id t, task_data_of (shared st), Raises e)]\<rparr>"])
      apply (rule exI[of _ "failed_result t e"])
      apply (rule exI[of _ "[(pt_task_id t, task_data_of (shared st), Raises e)]"])
      using raised by (auto simp: failed_result_def dict_get_def)
  qed
  then obtain st1 r tr1 where s1: "execute_task run t st = Inr st1"
      and r1: "results st1 = results st @ [r]"
      and t1: "invoked st1 = invoked st @ tr1"
      and id1: "?keeps \<longrightarrow> dict_get r ''task_id'' = PStr (pt_task_id t)"
      and na1: "\<forall>ty. TaskType_of (PStr (pt_type t)) = Inr ty \<and> agents ty = None \<longrightarrow> r = no_agent_result t ty"
      and ra1: "\<forall>tid d e. (tid, d, Raises e) \<in> set tr1 \<longrightarrow> pt_task_id t = tid \<and> r = failed_result t e"
    by blast
  from Cons.IH[OF vts, of st1] obtain st' rs tr where
        l: "execute_loop run ts st1 = Inr st'"
    and r2: "results st' = results st1 @ rs"
    and t2: "invoked st' = invoked st1 @ tr"
    and len: "length rs = length ts"
    and id2: "?keeps \<longrightarrow> map (\<lambda>r. dict_get r ''task_id'') rs = map (\<lambda>t. PStr (pt_task_id t)) ts"
    and na2: "\<forall>i < length ts. \<forall>ty. TaskType_of (PStr (pt_type (ts ! i))) = Inr ty \<and> agents ty = None
                \<longrightarrow> rs ! i = no_agent_result (ts ! i) ty"
    and ra2: "\<forall>tid d e. (tid, d, Raises e) \<in> set tr \<longrightarrow>
                (\<exists>i < length ts. pt_task_id (ts ! i) = tid \<and> rs ! i = failed_result (ts ! i) e)"
    by blast
  have na: "\<forall>i < length (t # ts). \<forall>ty. TaskType_of (PStr (pt_type ((t # ts) ! i))) = Inr ty \<and> agents ty = None
                \<longrightarrow> (r # rs) ! i = no_agent_result ((t # ts) ! i) ty"
  proof (intro allI impI)
    fix i ty
    assume i: "i < length (t # ts)"
      and h: "TaskType_of (PStr (pt_type ((t # ts) ! i))) = Inr ty \<and> agents ty = None"
    show "(r # rs) ! i = no_agent_result ((t # ts) ! i) ty"
      using i h na1 na2 by (cases i) auto
  qed
  have ra: "\<forall>tid d e. (tid, d, Raises e) \<in> set (tr1 @ tr) \<longrightarrow>
                (\<exists>i < length (t # ts). pt_task_id ((t # ts) ! i) = tid
                   \<and> (r # rs) ! i = failed_result ((t # ts) ! i) e)"
  proof (intro allI impI)
    fix tid d e
    assume m: "(tid, d, Raises e) \<in> set (tr1 @ tr)"
    show "\<exists>i < length (t # ts). pt_task_id ((t # ts) ! i) = tid
                   \<and> (r # rs) ! i = failed_result ((t # ts) ! i) e"
    proof (cases "(tid, d, Raises e) \<in> set tr1")
      case True
      then have "pt_task_id t = tid \<and> r = failed_result t e" using ra1 by blast
      then show ?thesis by (intro exI[of _ 0]) simp
    next
      case False
      then have "(tid, d, Raises e) \<in> set tr" using m by simp
      then obtain i where "i < length ts" "pt_task_id (ts ! i) = tid"
          "rs ! i = failed_result (ts ! i) e" using ra2 by blast
      then show ?thesis by (intro exI[of _ "Suc i"]) simp
    qed
  qed
  show ?case
    apply (rule exI[of _ st'])
    apply (rule exI[of _ "r # rs"])
    apply (rule exI[of _ "tr1 @ tr"])
    using s1 l r1 r2 t1 t2 len id1 id2 na ra by simp
qed

lemma sees_snoc:
  assumes old: "\<forall>j < length tr. \<forall>i < j. \<forall>tid d r. tr ! i = (tid, d, Returns r) \<longrightarrow>
                  map_of (fst (snd (tr ! j))) (result_key tid) = Some (PDict r)"
    and new: "\<forall>tid d r. (tid, d, Returns r) \<in> set tr \<longrightarrow>
                  map_of dat (result_key tid) = Some (PDict r)"
  shows "\<forall>j < length (tr @ [(x, dat, out)]). \<forall>i < j. \<forall>tid d r.
           (tr @ [(x, dat, out)]) ! i = (tid, d, Returns r) \<longrightarrow>
           map_of (fst (snd ((tr @ [(x, dat, out)]) ! j))) (result_key tid) = Some (PDict r)"
proof (intro allI impI)
  fix j i tid d r
  assume j: "j < length (tr @ [(x, dat, out)])" and i: "i < j"
    and e: "(tr @ [(x, dat, out)]) ! i = (tid, d, Returns r)"
  show "map_of (fst (snd ((tr @ [(x, dat, out)]) ! j))) (result_key tid) = Some (PDict r)"
  proof (cases "j < length tr")
    case True
    then have "tr ! i = (tid, d, Returns r)" using e i by (simp add: nth_append)
    then show ?thesis using old True i by (simp add: nth_append)
  next
    case False
    then have jl: "j = length tr" using j by simp
    then have "tr ! i = (tid, d, Returns r)" using e i by (simp add: nth_append)
    then have "(tid, d, Returns r) \<in> set tr" using i jl by (metis nth_mem)
    then show ?thesis using new jl by simp
  qed
qed

lemma execute_loop_sees:
  assumes "\<forall>t \<in> set tasks. valid_type (pt_type t)"
    and "distinct (map pt_task_id tasks)"
    and "distinct (map fst (shared st))"
    and "\<forall>tid d out. (tid, d, out) \<in> set (invoked st) \<longrightarrow> tid \<notin> pt_task_id ` set tasks"
    and "\<forall>tid d r. (tid, d, Returns r) \<in> set (invoked st) \<longrightarrow>
           map_of (shared st) (result_key tid) = Some (PDict r)"
    and "\<forall>j < length (invoked st). \<forall>i < j. \<forall>tid d r. invoked st ! i = (tid, d, Returns r) \<longrightarrow>
           map_of (fst (snd (invoked st ! j))) (result_key tid) = Some (PDict r)"
  shows "\<exists>st'. execute_loop run tasks st = Inr st'
           \<and> (\<forall>j < length (invoked st'). \<forall>i < j. \<forall>tid d r. invoked st' ! i = (tid, d, Returns r) \<longrightarrow>
                 map_of (fst (snd (invoked st' ! j))) (result_key tid) = Some (PDict r))"
  using assms
proof (induction tasks arbitrary: st)
  case Nil
  then show ?case by simp
next
  case (Cons t ts)
  have vt: "valid_type (pt_type t)" and vts: "\<forall>t \<in> set ts. valid_type (pt_type t)"
    using Cons.prems(1) by simp_all
  have dts: "distinct (map pt_task_id ts)" and tnew: "pt_task_id t \<notin> pt_task_id ` set ts"
    using Cons.prems(2) by simp_all
  note dctx = Cons.prems(3)
  have fresh_t: "\<forall>tid d out. (tid, d, out) \<in> set (invoked st) \<longrightarrow> tid \<noteq> pt_task_id t"
    and fresh_ts: "\<forall>tid d out. (tid, d, out) \<in> set (invoked st) \<longrightarrow> tid \<notin> pt_task_id ` set ts"
    using Cons.prems(4) by auto
  note ctx = Cons.prems(5)
  note sees = Cons.prems(6)
  have newdat: "\<forall>tid d r. (tid, d, Returns r) \<in> set (invoked st) \<longrightarrow>
                  map_of (task_data_of (shared st)) (result_key tid) = Some (PDict r)"
    using ctx by (simp add: task_data_lookup[OF dctx])
  have step: "\<exists>st1. execute_task run t st = Inr st1
      \<and> distinct (map fst (shared st1))
      \<and> (\<forall>tid d out. (tid, d, out) \<in> set (invoked st1) \<longrightarrow> tid \<notin> pt_task_id ` set ts)
      \<and> (\<forall>tid d r. (tid, d, Returns r) \<in> set (invoked st1) \<longrightarrow>
            map_of (shared st1) (result_key tid) = Some (PDict r))
      \<and> (\<forall>j < length (invoked st1). \<forall>i < j. \<forall>tid d r. invoked st1 ! i = (tid, d, Returns r) \<longrightarrow>
            map_of (fst (snd (invoked st1 ! j))) (result_key tid) = Some (PDict r))"
    using vt
  proof (cases rule: execute_task_cases[where t = t and run = run and st = st])
    case (no_agent ty)
    show ?thesis
      apply (rule exI[of _ "st\<lparr>results := results st @ [no_agent_result t ty]\<rparr>"])
      using no_agent(3) dctx fresh_ts ctx sees by simp
  next
    case (returned ty a r w')
    let ?st1 = "\<lparr>results = results st @ [success_result t ty r],
              shared = AList.update (result_key (pt_task_id t)) (PDict r) (shared st),
              world = w',
              invoked = invoked st @ [(pt_task_id t, task_data_of (shared st), Returns r)]\<rparr>"
    have a: "distinct (map fst (shared ?st1))" using dctx by (simp add: distinct_update)
    have b: "\<forall>tid d out. (tid, d, out) \<in> set (invoked ?st1) \<longrightarrow> tid \<notin> pt_task_id ` set ts"
      using fresh_ts tnew by auto
    have c: "\<forall>tid d r'. (tid, d, Returns r') \<in> set (invoked ?st1) \<longrightarrow>
            map_of (shared ?st1) (result_key tid) = Some (PDict r')"
    proof (intro allI impI)
      fix tid d r'
      assume m: "(tid, d, Returns r') \<in> set (invoked ?st1)"
      show "map_of (shared ?st1) (result_key tid) = Some (PDict r')"
      proof (cases "(tid, d, Returns r') \<in> set (invoked st)")
        case True
        then have "tid \<noteq> pt_task_id t" using fresh_t by blast
        then have "result_key tid \<noteq> result_key (pt_task_id t)" using result_key_inj by blast
        then show ?thesis using ctx True by (simp add: update_conv')
      next
        case False
        then have "tid = pt_task_id t \<and> r' = r" using m by simp
        then show ?thesis by (simp add: update_conv')
      qed
    qed
    have d: "\<forall>j < length (invoked ?st1). \<forall>i < j. \<forall>tid d r. invoked ?st1 ! i = (tid, d, Returns r) \<longrightarrow>
            map_of (fst (snd (invoked ?st1 ! j))) (result_key tid) = Some (PDict r)"
      using sees_snoc[OF sees newdat, of "pt_task_id t" "Returns r"] by simp
    show ?thesis
      apply (rule exI[of _ ?st1])
      using returned(4) a b c d by blast
  next
    case (raised ty a e w')
    let ?st1 = "\<lparr>results = results st @ [failed_result t e],
              shared = shared st,
              world = w',
              invoked = invoked st @ [(pt_task_id t, task_data_of (shared st), Raises e)]\<rparr>"
    have a: "distinct (map fst (shared ?st1))" using dctx by simp
    have b: "\<forall>tid d out. (tid, d, out) \<in> set (invoked ?st1) \<longrightarrow> tid \<notin> pt_task_id ` set ts"
      using fresh_ts tnew by auto
    have c: "\<forall>tid d r'. (tid, d, Returns r') \<in> set (invoked ?st1) \<longrightarrow>
            map_of (shared ?st1) (result_key tid) = Some (PDict r')"
      using ctx by simp
    have d: "\<forall>j < length (invoked ?st1). \<forall>i < j. \<forall>tid d r. invoked ?st1 ! i = (tid, d, Returns r) \<longrightarrow>
            map_of (fst (snd (invoked ?st1 ! j))) (result_key tid) = Some (PDict r)"
      using sees_snoc[OF sees newdat, of "pt_task_id t" "Raises e"] by simp
    show ?thesis
      apply (rule exI[of _ ?st1])
      using raised(4) a b c d by blast
  qed
  then obtain st1 where s1: "execute_task run t st = Inr st1"
    and p1: "distinct (map fst (shared st1))"
    and p2: "\<forall>tid d out. (tid, d, out) \<in> set (invoked st1) \<longrightarrow> tid \<notin> pt_task_id ` set ts"
    and p3: "\<forall>tid d r. (tid, d, Returns r) \<in> set (invoked st1) \<longrightarrow>
            map_of (shared st1) (result_key tid) = Some (PDict r)"
    and p4: "\<forall>j < length (invoked st1). \<forall>i < j. \<forall>tid d r. invoked st1 ! i = (tid, d, Returns r) \<longrightarrow>
            map_of (fst (snd (invoked st1 ! j))) (result_key tid) = Some (PDict r)"
    by blast
  from Cons.IH[OF vts dts p1 p2 p3 p4] s1 show ?case by simp
qed

lemma execute_loop_trace:
  assumes "\<forall>t \<in> set tasks. valid_type (pt_type t)"
  shows "\<exists>st'. execute_loop run tasks st = Inr st'
           \<and> map fst (invoked st') =
               map fst (invoked st) @ map pt_task_id (filter (\<lambda>t. has_agent (pt_type t)) tasks)"
  using assms
proof (induction tasks arbitrary: st)
  case Nil
  then show ?case by simp
next
  case (Cons t ts)
  have vt: "valid_type (pt_type t)" and vts: "\<forall>t \<in> set ts. valid_type (pt_type t)"
    using Cons.prems by simp_all
  have "\<exists>st1. execute_task run t st = Inr st1
          \<and> map fst (invoked st1) =
              map fst (invoked st) @ (if has_agent (pt_type t) then [pt_task_id t] else [])"
    using vt
  proof (cases rule: execute_task_cases[where t = t and run = run and st = st])
    case (no_agent ty)
    then show ?thesis by (simp add: has_agent_def)
  next
    case (returned ty a r w')
    then show ?thesis by (simp add: has_agent_def)
  next
    case (raised ty a e w')
    then show ?thesis by (simp add: has_agent_def)
  qed
  then obtain st1 where s1: "execute_task run t st = Inr st1"
    and t1: "map fst (invoked st1) =
              map fst (invoked st) @ (if has_agent (pt_type t) then [pt_task_id t] else [])"
    by blast
  from Cons.IH[OF vts, of st1] s1 t1 show ?case by auto
qed

lemma execute_loop_append:
  "execute_loop run (xs @ ys) st =
     (case execute_loop run xs st of Inl e \<Rightarrow> Inl e | Inr s \<Rightarrow> execute_loop run ys s)"
  by (induction xs arbitrary: st) (auto split: sum.splits)

lemma execute_loop_returns:
  assumes "\<forall>t \<in> set tasks. valid_type (pt_type t)"
  shows "\<exists>st' rs. execute_loop run tasks st = Inr st' \<and> results st' = results st @ rs
           \<and> length rs = length tasks"
  using execute_loop_results[OF assms, of run st] by blast

lemma execute_tasks_prefix_step:
  assumes v: "\<forall>t \<in> set tasks. valid_type (pt_type t)"
    and fin: "execute_tasks run tasks sid ctx w = Inr st"
    and i: "i < length tasks"
  shows "\<exists>s s' ty. execute_tasks run (take i tasks) sid ctx w = Inr s
        \<and> execute_tasks run (take (Suc i) tasks) sid ctx w = Inr s'
        \<and> execute_task run (tasks ! i) s = Inr s'
        \<and> TaskType_of (PStr (pt_type (tasks ! i))) = Inr ty
        \<and> results s = take i (results st)
        \<and> results s' = take (Suc i) (results st)"
proof -
  let ?st0 = "\<lparr>results = [], shared = ctx, world = w, invoked = []\<rparr>"
  have vi: "\<forall>t \<in> set (take i tasks). valid_type (pt_type t)"
    using v by (meson in_set_takeD)
  have vt: "valid_type (pt_type (tasks ! i))" using v i by simp
  have vd: "\<forall>t \<in> set (drop (Suc i) tasks). valid_type (pt_type t)"
    using v by (meson in_set_dropD)
  obtain s rs where s: "execute_loop run (take i tasks) ?st0 = Inr s"
    and rs: "results s = results ?st0 @ rs" "length rs = length (take i tasks)"
    using execute_loop_returns[OF vi, of run ?st0] by blast
  have vone: "\<forall>t \<in> set [tasks ! i]. valid_type (pt_type t)" using vt by simp
  obtain s' r1 where s': "execute_loop run [tasks ! i] s = Inr s'"
    and r1: "results s' = results s @ r1" "length r1 = length [tasks ! i]"
    using execute_loop_returns[OF vone, of run s] by blast
  have step: "execute_task run (tasks ! i) s = Inr s'"
    using s' by (simp split: sum.splits)
  obtain st2 r2 where st2: "execute_loop run (drop (Suc i) tasks) s' = Inr st2"
    and r2: "results st2 = results s' @ r2"
    using execute_loop_returns[OF vd, of run s'] by blast
  have split: "tasks = take i tasks @ [tasks ! i] @ drop (Suc i) tasks"
    using i by (simp add: Cons_nth_drop_Suc)
  have tk: "take (Suc i) tasks = take i tasks @ [tasks ! i]"
    using i by (simp add: take_Suc_conv_app_nth)
  have "execute_loop run tasks ?st0 = Inr st2"
    using s s' st2 execute_loop_append[of run "take i tasks" "[tasks ! i] @ drop (Suc i) tasks" ?st0]
          execute_loop_append[of run "[tasks ! i]" "drop (Suc i) tasks" s] split
    by (metis (no_types, lifting) sum.simps(6))
  then have eq: "st2 = st" using fin by (simp add: execute_tasks_def)
  have p1: "execute_tasks run (take i tasks) sid ctx w = Inr s"
    using s by (simp add: execute_tasks_def)
  have p2: "execute_tasks run (take (Suc i) tasks) sid ctx w = Inr s'"
    using s s' execute_loop_append[of run "take i tasks" "[tasks ! i]" ?st0] tk
    by (simp add: execute_tasks_def)
  obtain ty where ty: "TaskType_of (PStr (pt_type (tasks ! i))) = Inr ty"
    using TaskType_of_valid[OF vt] by blast
  have li: "length (results s) = i" using rs i by simp
  have ls: "length (results s') = Suc i" using r1 li by simp
  have t1: "results s = take i (results st)" using r1 r2 eq li by auto
  have t2: "results s' = take (Suc i) (results st)" using r2 eq ls by auto
  show ?thesis using p1 p2 step ty t1 t2 by blast
qed

lemma execute_task_step:
  assumes "valid_type (pt_type t)" and "execute_task run t s = Inr s'"
    and "TaskType_of (PStr (pt_type t)) = Inr ty"
  shows "(agents ty = None \<longrightarrow> s' = s\<lparr>results := results s @ [no_agent_result t ty]\<rparr>)
       \<and> (\<forall>a r w'. agents ty = Some a
              \<and> run a (world s) (task_data_of (shared s)) = (Returns r, w') \<longrightarrow>
            s' = \<lparr>results = results s @ [success_result t ty r],
                  shared = AList.update (result_key (pt_task_id t)) (PDict r) (shared s),
                  world = w',
                  invoked = invoked s @ [(pt_task_id t, task_data_of (shared s), Returns r)]\<rparr>)
       \<and> (\<forall>a e w'. agents ty = Some a
              \<and> run a (world s) (task_data_of (shared s)) = (Raises e, w') \<longrightarrow>
            s' = \<lparr>results = results s @ [failed_result t e],
                  shared = shared s,
                  world = w',
                  invoked = invoked s @ [(pt_task_id t, task_data_of (shared s), Raises e)]\<rparr>)"
  using assms(1)
proof (cases rule: execute_task_cases[where t = t and run = run and st = s])
  case (no_agent ty')
  then show ?thesis using assms(2,3) by auto
next
  case (returned ty' a' r' w'')
  then show ?thesis using assms(2,3) by auto
next
  case (raised ty' a' e' w'')
  then show ?thesis using assms(2,3) by auto
qed


text \<open>
  C3 (as stated).  The claim says that the registry has a handler for each of the six task
  types.  It has none for \<open>offer_generation\<close>, for which the repository has no agent at
  all: a well-typed offer-generation task takes the ``No agent found'' branch and no
  handler is invoked.
\<close>

theorem agents_missing_handler_counterexample:
  "agents OFFER_GENERATION = None
   \<and> TaskType_of (PStr ''offer_generation'') = Inr OFFER_GENERATION
   \<and> execute_tasks sample_run
        [\<lparr>pt_task_id = ''task_1'', pt_type = ''offer_generation'', pt_description = ''offer'',
          pt_priority = 1\<rparr>] ''s'' [] 0
     = Inr \<lparr>results = [[(''task_id'', PStr ''task_1''), (''success'', PBool False),
                          (''error'',
                           PStr ''No agent found for task type: TaskType.OFFER_GENERATION'')]],
            shared = [], world = 0, invoked = []\<rparr>"
  by (simp add: agents_def TaskType_of_def all_task_types_def execute_tasks_def execute_task_def
        no_agent_result_def format_task_type_def)

text \<open>
  C3 (amended).  The registry holds exactly one handler for each of \<open>job_description\<close>,
  \<open>resume_screening\<close> and \<open>interview_scheduling\<close>, and none for
  \<open>email_communication\<close> and \<open>offer_generation\<close>; a task of one of these two types
  gets the ``No agent found'' failed result, the rest of the dispatch state unchanged.
  (Nothing is said here about \<open>analytics\<close>.)
\<close>

theorem agents_registry:
  "agents JOB_DESCRIPTION = Some jd_generator_agent
   \<and> agents RESUME_SCREENING = Some screening_agent
   \<and> agents INTERVIEW_SCHEDULING = Some interview_agent
   \<and> agents EMAIL_COMMUNICATION = None
   \<and> agents OFFER_GENERATION = None
   \<and> (ty \<in> {EMAIL_COMMUNICATION, OFFER_GENERATION} \<and> pt_type task = task_type_value ty
        \<longrightarrow> execute_task run task st =
              Inr (st\<lparr>results := results st @ [no_agent_result task ty]\<rparr>))"
proof -
  have tt: "TaskType_of (PStr (task_type_value ty)) = Inr ty"
    by (cases ty) (simp_all add: TaskType_of_def all_task_types_def)
  have "ty \<in> {EMAIL_COMMUNICATION, OFFER_GENERATION} \<and> pt_type task = task_type_value ty
        \<longrightarrow> execute_task run task st =
              Inr (st\<lparr>results := results st @ [no_agent_result task ty]\<rparr>)"
    using tt by (auto simp: execute_task_def agents_def)
  then show ?thesis by (simp add: agents_def)
qed

theorem agents_registry_witness:
  "execute_task sample_run
     \<lparr>pt_task_id = ''task_7'', pt_type = ''email_communication'', pt_description = ''mail'',
      pt_priority = 2\<rparr>
     \<lparr>results = [], shared = [], world = 0, invoked = []\<rparr>
   = Inr \<lparr>results = [[(''task_id'', PStr ''task_7''), (''success'', PBool False),
                        (''error'',
                         PStr ''No agent found for task type: TaskType.EMAIL_COMMUNICATION'')]],
          shared = [], world = 0, invoked = []\<rparr>"
  using agents_registry[of EMAIL_COMMUNICATION
      "\<lparr>pt_task_id = ''task_7'', pt_type = ''email_communication'', pt_description = ''mail'',
        pt_priority = 2\<rparr>"
      sample_run "\<lparr>results = [], shared = [], world = 0, invoked = []\<rparr>"]
  by (simp add: no_agent_result_def format_task_type_def)



text \<open>
  C5 (as stated).  The claim says that the input view of a task holds the result of every
  task dispatched before it.  In the sample plan the screening handler of \<open>task_2\<close> is
  invoked and raises; its failed result is in the result list, but the input view given
  next to the handler of \<open>task_3\<close> has nothing under the key of \<open>task_2\<close>.
\<close>

theorem execute_tasks_raised_not_shared_counterexample:
  "map fst (invoked (projr (execute_tasks sample_run sample_plan ''s'' [] 0)))
     = [''task_1'', ''task_2'', ''task_3'', ''task_5'']
   \<and> snd (snd (invoked (projr (execute_tasks sample_run sample_plan ''s'' [] 0)) ! 1))
     = Raises ''resume_path required''
   \<and> results (projr (execute_tasks sample_run sample_plan ''s'' [] 0)) ! 2
     = [(''task_id'', PStr ''task_2''), (''success'', PBool False),
        (''error'', PStr ''resume_path required'')]
   \<and> map_of (fst (snd (invoked (projr (execute_tasks sample_run sample_plan ''s'' [] 0)) ! 2)))
        (result_key ''task_2'') = None"
  by (simp add: execute_tasks_def sample_plan_def sample_run_def execute_task_def
        TaskType_of_def all_task_types_def agents_def task_data_of_def dict_merge_def
        dict_get_default_def result_key_def success_result_def failed_result_def
        no_agent_result_def format_task_type_def Let_def)

text \<open>
  C5 (amended).  For a plan with valid task types and distinct task ids and a context
  dictionary, the dispatch returns, the handlers are invoked for the tasks that have one,
  in plan order, and the input view passed to a handler holds, under the key
  \<open>task_<id>_result\<close>, the result of every handler invoked earlier that returned without
  raising.  The view given to the handler of task \<open>i\<close> is built from the context reached
  after the first \<open>i\<close> tasks; a handler that returns stores its result in that context
  under the key of its task, while a handler that raises and a task without a handler
  leave the context as it was.
\<close>

theorem execute_tasks_context_visibility:
  assumes "\<forall>t \<in> set tasks. valid_type (pt_type t)"
    and "distinct (map pt_task_id tasks)"
    and "distinct (map fst ctx)"
  shows "\<exists>st. execute_tasks run tasks sid ctx w = Inr st
      \<and> map fst (invoked st) = map pt_task_id (filter (\<lambda>t. has_agent (pt_type t)) tasks)
      \<and> (\<forall>j < length (invoked st). \<forall>i < j. \<forall>tid d r.
            invoked st ! i = (tid, d, Returns r) \<longrightarrow>
            map_of (fst (snd (invoked st ! j))) (result_key tid) = Some (PDict r))
      \<and> (\<forall>i < length tasks. \<exists>s s' ty.
            execute_tasks run (take i tasks) sid ctx w = Inr s
          \<and> execute_tasks run (take (Suc i) tasks) sid ctx w = Inr s'
          \<and> TaskType_of (PStr (pt_type (tasks ! i))) = Inr ty
          \<and> (agents ty = None \<longrightarrow> shared s' = shared s \<and> invoked s' = invoked s)
          \<and> (\<forall>a. agents ty = Some a \<longrightarrow>
                invoked s' = invoked s @
                  [(pt_task_id (tasks ! i), task_data_of (shared s),
                    fst (run a (world s) (task_data_of (shared s))))])
          \<and> (\<forall>a r w'. agents ty = Some a
                 \<and> run a (world s) (task_data_of (shared s)) = (Returns r, w') \<longrightarrow>
                shared s' = AList.update (result_key (pt_task_id (tasks ! i))) (PDict r) (shared s))
          \<and> (\<forall>a e w'. agents ty = Some a
                 \<and> run a (world s) (task_data_of (shared s)) = (Raises e, w') \<longrightarrow>
                shared s' = shared s))"
proof -
  let ?st0 = "\<lparr>results = [], shared = ctx, world = w, invoked = []\<rparr>"
  obtain st where a: "execute_loop run tasks ?st0 = Inr st"
    and b: "\<forall>j < length (invoked st). \<forall>i < j. \<forall>tid d r.
            invoked st ! i = (tid, d, Returns r) \<longrightarrow>
            map_of (fst (snd (invoked st ! j))) (result_key tid) = Some (PDict r)"
    using execute_loop_sees[OF assms(1,2), of ?st0 run] assms(3) by auto
  have fin: "execute_tasks run tasks sid ctx w = Inr st" using a by (simp add: execute_tasks_def)
  have c: "map fst (invoked st) = map pt_task_id (filter (\<lambda>t. has_agent (pt_type t)) tasks)"
    using execute_loop_trace[OF assms(1), of run ?st0] a by simp
  have d: "\<forall>i < length tasks. \<exists>s s' ty.
            execute_tasks run (take i tasks) sid ctx w = Inr s
          \<and> execute_tasks run (take (Suc i) tasks) sid ctx w = Inr s'
          \<and> TaskType_of (PStr (pt_type (tasks ! i))) = Inr ty
          \<and> (agents ty = None \<longrightarrow> shared s' = shared s \<and> invoked s' = invoked s)
          \<and> (\<forall>a. agents ty = Some a \<longrightarrow>
                invoked s' = invoked s @
                  [(pt_task_id (tasks ! i), task_data_of (shared s),
                    fst (run a (world s) (task_data_of (shared s))))])
          \<and> (\<forall>a r w'. agents ty = Some a
                 \<and> run a (world s) (task_data_of (shared s)) = (Returns r, w') \<longrightarrow>
                shared s' = AList.update (result_key (pt_task_id (tasks ! i))) (PDict r) (shared s))
          \<and> (\<forall>a e w'. agents ty = Some a
                 \<and> run a (world s) (task_data_of (shared s)) = (Raises e, w') \<longrightarrow>
                shared s' = shared s)"
  proof (intro allI impI)
    fix i assume i: "i < length tasks"
    obtain s s' ty where p: "execute_tasks run (take i tasks) sid ctx w = Inr s"
        "execute_tasks run (take (Suc i) tasks) sid ctx w = Inr s'"
        "execute_task run (tasks ! i) s = Inr s'"
        "TaskType_of (PStr (pt_type (tasks ! i))) = Inr ty"
      using execute_tasks_prefix_step[OF assms(1) fin i] by blast
    have vt: "valid_type (pt_type (tasks ! i))" using assms(1) i by simp
    note stp = execute_task_step[OF vt p(3) p(4)]
    have q1: "agents ty = None \<longrightarrow> shared s' = shared s \<and> invoked s' = invoked s"
      using stp by auto
    have q2: "\<forall>a. agents ty = Some a \<longrightarrow>
                invoked s' = invoked s @
                  [(pt_task_id (tasks ! i), task_data_of (shared s),
                    fst (run a (world s) (task_data_of (shared s))))]"
    proof (intro allI impI)
      fix a assume ag: "agents ty = Some a"
      obtain out w' where r: "run a (world s) (task_data_of (shared s)) = (out, w')"
        by (cases "run a (world s) (task_data_of (shared s))")
      show "invoked s' = invoked s @
                  [(pt_task_id (tasks ! i), task_data_of (shared s),
                    fst (run a (world s) (task_data_of (shared s))))]"
        using stp ag r by (cases out) auto
    qed
    have q3: "\<forall>a r w'. agents ty = Some a
                 \<and> run a (world s) (task_data_of (shared s)) = (Returns r, w') \<longrightarrow>
                shared s' = AList.update (result_key (pt_task_id (tasks ! i))) (PDict r) (shared s)"
      using stp by auto
    have q4: "\<forall>a e w'. agents ty = Some a
                 \<and> run a (world s) (task_data_of (shared s)) = (Raises e, w') \<longrightarrow>
                shared s' = shared s"
      using stp by auto
    show "\<exists>s s' ty.
            execute_tasks run (take i tasks) sid ctx w = Inr s
          \<and> execute_tasks run (take (Suc i) tasks) sid ctx w = Inr s'
          \<and> TaskType_of (PStr (pt_type (tasks ! i))) = Inr ty
          \<and> (agents ty = None \<longrightarrow> shared s' = shared s \<and> invoked s' = invoked s)
          \<and> (\<forall>a. agents ty = Some a \<longrightarrow>
                invoked s' = invoked s @
                  [(pt_task_id (tasks ! i), task_data_of (shared s),
                    fst (run a (world s) (task_data_of (shared s))))])
          \<and> (\<forall>a r w'. agents ty = Some a
                 \<and> run a (world s) (task_data_of (shared s)) = (Returns r, w') \<longrightarrow>
                shared s' = AList.update (result_key (pt_task_id (tasks ! i))) (PDict r) (shared s))
          \<and> (\<forall>a e w'. agents ty = Some a
                 \<and> run a (world s) (task_data_of (shared s)) = (Raises e, w') \<longrightarrow>
                shared s' = shared s)"
      apply (rule exI[of _ s])
      apply (rule exI[of _ s'])
      apply (rule exI[of _ ty])
      using p(1,2,4) q1 q2 q3 q4 by (intro conjI)
  qed
  show ?thesis
    apply (rule exI[of _ st])
    using fin b c d by (intro conjI)
qed

theorem execute_tasks_context_visibility_witness:
  "list_all (\<lambda>t. valid_type (pt_type t)) sample_plan
   \<and> distinct (map pt_task_id sample_plan)
   \<and> (\<exists>st. execute_tasks sample_run sample_plan ''s'' [(''user_request'', PStr ''hire'')] 0 = Inr st
          \<and> map fst (invoked st) = [''task_1'', ''task_2'', ''task_3'', ''task_5'']
          \<and> map_of (fst (snd (invoked st ! 2))) (result_key ''task_1'') =
              Some (PDict [(''success'', PBool True), (''message'', PStr ''Job created''),
                           (''job_id'', PStr ''j1''),
                           (''next_actions'', PList [PStr ''Post job'', PStr ''Screen resumes''])]))"
proof -
  let ?E = "execute_tasks sample_run sample_plan ''s'' [(''user_request'', PStr ''hire'')] 0"
  let ?r = "[(''success'', PBool True), (''message'', PStr ''Job created''),
             (''job_id'', PStr ''j1''),
             (''next_actions'', PList [PStr ''Post job'', PStr ''Screen resumes''])]"
  have v: "\<forall>t \<in> set sample_plan. valid_type (pt_type t)"
    by (simp add: sample_plan_def valid_type_def all_task_types_def)
  have d: "distinct (map pt_task_id sample_plan)" by (simp add: sample_plan_def)
  have c: "distinct (map fst [(''user_request'', PStr ''hire'')])" by simp
  have f: "map pt_task_id (filter (\<lambda>t. has_agent (pt_type t)) sample_plan)
             = [''task_1'', ''task_2'', ''task_3'', ''task_5'']"
    by (simp add: sample_plan_def has_agent_def TaskType_of_def all_task_types_def agents_def)
  have "\<exists>st. ?E = Inr st
     \<and> map fst (invoked st) = map pt_task_id (filter (\<lambda>t. has_agent (pt_type t)) sample_plan)
     \<and> (\<forall>j < length (invoked st). \<forall>i < j. \<forall>tid d r.
            invoked st ! i = (tid, d, Returns r) \<longrightarrow>
            map_of (fst (snd (invoked st ! j))) (result_key tid) = Some (PDict r))"
    using execute_tasks_context_visibility[OF v d c, of sample_run "''s''" 0]
    by (elim exE conjE) (intro exI conjI; assumption)
  then obtain st where st: "?E = Inr st"
     "map fst (invoked st) = map pt_task_id (filter (\<lambda>t. has_agent (pt_type t)) sample_plan)"
     "\<forall>j < length (invoked st). \<forall>i < j. \<forall>tid d r.
            invoked st ! i = (tid, d, Returns r) \<longrightarrow>
            map_of (fst (snd (invoked st ! j))) (result_key tid) = Some (PDict r)"
    by blast
  have o: "map fst (invoked st) = [''task_1'', ''task_2'', ''task_3'', ''task_5'']"
    using st(2) f by simp
  have "length (map fst (invoked st)) = 4" by (simp only: o) simp
  then have len: "length (invoked st) = 4" by simp
  have first: "invoked (projr ?E) ! 0 = (''task_1'', [(''user_request'', PStr ''hire'')], Returns ?r)"
    by (simp add: execute_tasks_def sample_plan_def sample_run_def execute_task_def
        TaskType_of_def all_task_types_def agents_def task_data_of_def dict_merge_def
        dict_get_default_def result_key_def success_result_def failed_result_def
        no_agent_result_def format_task_type_def Let_def)
  then have f0: "invoked st ! 0 = (''task_1'', [(''user_request'', PStr ''hire'')], Returns ?r)"
    using st(1) by simp
  have j2: "2 < length (invoked st)" and i0: "(0::nat) < 2" using len by simp_all
  have vis: "map_of (fst (snd (invoked st ! 2))) (result_key ''task_1'') = Some (PDict ?r)"
    using st(3)[rule_format, OF j2 i0, of "''task_1''" "[(''user_request'', PStr ''hire'')]" ?r] f0
    by blast
  have "\<exists>st. ?E = Inr st
          \<and> map fst (invoked st) = [''task_1'', ''task_2'', ''task_3'', ''task_5'']
          \<and> map_of (fst (snd (invoked st ! 2))) (result_key ''task_1'') = Some (PDict ?r)"
    using st(1) o vis by (intro exI[of _ st] conjI)
  then show ?thesis using v d by (simp add: list_all_iff)
qed

section \<open>Properties of the response synthesis\<close>

lemma str_list_Some: "str_list xs = Some ss \<Longrightarrow> xs = map PStr ss"
proof (induction xs arbitrary: ss rule: str_list.induct)
  case 1
  then show ?case by simp
next
  case (2 s rest)
  then show ?case by (auto split: option.splits)
qed simp_all

lemma str_list_map: "str_list (map PStr ss) = Some ss"
  by (induction ss) simp_all

lemma dedup_distinct:
  "distinct (map hash_key seen) \<Longrightarrow> distinct (map hash_key (dedup seen xs))"
  by (induction xs arbitrary: seen) auto

lemma dedup_set: "set (dedup seen xs) \<subseteq> set seen \<union> set xs"
proof (induction xs arbitrary: seen)
  case Nil
  then show ?case by simp
next
  case (Cons a xs)
  show ?case
  proof (cases "hash_key a \<in> set (map hash_key seen)")
    case True
    then show ?thesis using Cons.IH[of seen] by auto
  next
    case False
    then show ?thesis using Cons.IH[of "seen @ [a]"] by auto
  qed
qed

lemma all_strings:
  "set u \<subseteq> PStr ` S \<Longrightarrow> \<exists>acts. u = map PStr acts"
proof (induction u)
  case Nil
  then show ?case by simp
next
  case (Cons a u)
  then obtain acts where "u = map PStr acts" by auto
  moreover obtain s where "a = PStr s" using Cons.prems by auto
  ultimately have "a # u = map PStr (s # acts)" by simp
  then show ?case by (rule exI[of _ "s # acts"])
qed

lemma list_of_set_props:
  assumes perm: "\<forall>ys. mset (set_order ys) = mset ys"
    and strs: "xs = map PStr ss"
  shows "\<exists>acts. list_of_set set_order xs = Inr (map PStr acts) \<and> distinct acts"
proof -
  have h: "list_all hashable xs" using strs by (simp add: list_all_iff)
  let ?u = "set_order (dedup [] xs)"
  have m: "mset ?u = mset (dedup [] xs)" using perm by blast
  have "distinct (map hash_key (dedup [] xs))" by (rule dedup_distinct) simp
  then have "distinct (dedup [] xs)" by (simp add: distinct_map)
  then have du: "distinct ?u" using mset_eq_imp_distinct_iff[OF m] by simp
  have "set ?u = set (dedup [] xs)" using m by (rule mset_eq_setD)
  then have "set ?u \<subseteq> PStr ` set ss" using dedup_set[of "[]" xs] strs by auto
  then obtain acts where acts: "?u = map PStr acts" using all_strings by blast
  then have "distinct acts" using du by (simp add: distinct_map)
  then show ?thesis using h acts by (auto simp: list_of_set_def)
qed

lemma wf_message:
  assumes "wf_result r" "truthy (dict_get r ''message'')"
  shows "\<exists>s. dict_get r ''message'' = PStr s"
  using assms by (cases "dict_get r ''message''") (simp_all add: wf_result_def)

lemma wf_next_actions:
  assumes "wf_result r" "truthy (dict_get r ''next_actions'')"
  shows "\<exists>ts. dict_get r ''next_actions'' = PList (map PStr ts)"
proof (cases "dict_get r ''next_actions''")
  case (PList xs)
  then have "str_list xs \<noteq> None" using assms(1) by (simp add: wf_result_def)
  then obtain ts where "xs = map PStr ts" using str_list_Some by blast
  then show ?thesis using PList by (intro exI[of _ ts]) simp
qed (use assms in \<open>simp_all add: wf_result_def\<close>)

lemma collect_next_actions_strs:
  assumes "\<forall>r \<in> set rs. wf_result r"
  shows "\<exists>ss'. collect_next_actions rs (map PStr ss) = Inr (map PStr ss')"
  using assms
proof (induction rs arbitrary: ss)
  case Nil
  show ?case by (intro exI[of _ ss]) simp
next
  case (Cons r rs)
  have wf: "wf_result r" and wfs: "\<forall>r \<in> set rs. wf_result r" using Cons.prems(1) by simp_all
  show ?case
  proof (cases "truthy (dict_get r ''next_actions'')")
    case False
    then show ?thesis using Cons.IH[OF wfs, of ss] by simp
  next
    case True
    then obtain ts where xs: "dict_get r ''next_actions'' = PList (map PStr ts)"
      using wf_next_actions[OF wf] by blast
    have "map PStr ss @ map PStr ts = map PStr (ss @ ts)" by simp
    then show ?thesis using Cons.IH[OF wfs, of "ss @ ts"] True xs by (simp add: py_iter_def)
  qed
qed

lemma collect_messages_strs:
  assumes "\<forall>r \<in> set rs. wf_result r"
  shows "\<exists>ms. collect_messages rs = map PStr ms"
proof -
  have "set (collect_messages rs) \<subseteq> PStr ` UNIV"
    using assms wf_message by (fastforce simp: collect_messages_def)
  then show ?thesis using all_strings by blast
qed

lemma string_of_nat_3: "string_of_nat 3 = ''3''"
  by (simp add: string_of_nat.simps)

lemma dedup_strs_set:
  "set (dedup (map PStr a) (map PStr b)) = PStr ` (set a \<union> set b)"
proof (induction b arbitrary: a)
  case Nil
  then show ?case by simp
next
  case (Cons x b)
  show ?case
  proof (cases "x \<in> set a")
    case True
    then have "hash_key (PStr x) \<in> set (map hash_key (map PStr a))" by (simp add: image_iff)
    then have "dedup (map PStr a) (map PStr (x # b)) = dedup (map PStr a) (map PStr b)" by simp
    then show ?thesis using Cons.IH[of a] True by auto
  next
    case False
    then have "hash_key (PStr x) \<notin> set (map hash_key (map PStr a))" by (auto simp: image_iff)
    then have "dedup (map PStr a) (map PStr (x # b)) = dedup (map PStr (a @ [x])) (map PStr b)"
      by simp
    then show ?thesis using Cons.IH[of "a @ [x]"] by auto
  qed
qed

lemma list_of_set_strs:
  assumes perm: "\<forall>ys. mset (set_order ys) = mset ys"
  shows "\<exists>acts. list_of_set set_order (map PStr ss) = Inr (map PStr acts) \<and> distinct acts
           \<and> set acts = set ss"
proof -
  obtain acts where a: "list_of_set set_order (map PStr ss) = Inr (map PStr acts)"
    and d: "distinct acts"
    using list_of_set_props[OF perm, of "map PStr ss" ss] by blast
  have h: "list_all hashable (map PStr ss)" by (simp add: list_all_iff)
  have "map PStr acts = set_order (dedup [] (map PStr ss))"
    using a h by (simp add: list_of_set_def)
  then have "set (map PStr acts) = set (dedup [] (map PStr ss))"
    using perm by (metis mset_eq_setD)
  then have "PStr ` set acts = PStr ` set ss"
    using dedup_strs_set[of "[]" ss] by simp
  then have "set acts = set ss" by (simp add: inj_image_eq_iff inj_on_def)
  then show ?thesis using a d by blast
qed

lemmas sample_exec =
  execute_tasks_def sample_plan_def sample_run_def execute_task_def
  TaskType_of_def all_task_types_def agents_def task_data_of_def dict_merge_def
  dict_get_default_def dict_get_def result_key_def success_result_def failed_result_def
  no_agent_result_def format_task_type_def

text \<open>
  C9 (as stated).  The claim says that with three successes out of five tasks the final
  message is exactly the newline-joined success messages.  On the sample plan (one task
  of a type without handler, one raising handler, three successes) the synthesis returns
  a response whose message is the joined success messages followed by a blank line and
  the summary line ``Completed 3 tasks.'', which differs from the joined messages.  The
  message does not depend on the iteration order of the set of next actions.
\<close>

theorem generate_response_summary_counterexample:
  "isl (generate_response id ''''
          (results (projr (execute_tasks sample_run sample_plan ''s'' [] 0))) PNone) = False
   \<and> message (projr (generate_response id ''''
          (results (projr (execute_tasks sample_run sample_plan ''s'' [] 0))) PNone))
     = ''Job created'' @ newline @ ''Interview scheduled'' @ newline @ ''Job created''
       @ newline @ newline @ ''Completed 3 tasks.''
   \<and> ''Job created'' @ newline @ ''Interview scheduled'' @ newline @ ''Job created''
       @ newline @ newline @ ''Completed 3 tasks.''
     \<noteq> join newline [''Job created'', ''Interview scheduled'', ''Job created'']
   \<and> map (\<lambda>r. dict_get r ''success'')
        (results (projr (execute_tasks sample_run sample_plan ''s'' [] 0)))
     = [PBool True, PBool False, PBool False, PBool True, PBool True]"
  by (simp add: sample_exec generate_response_def Let_def
        collect_messages_def collect_data_def newline_def list_of_set_def
        py_iter_def string_of_nat.simps default_message_def)

text \<open>
  C9 (amended).  When at least one result is successful and the successful results keep
  the handler contract, the response is a success whose message is the newline-joined
  non-empty success messages (the default text when there is none) followed, when more
  than one task succeeded, by a blank line and ``Completed n tasks.''; with three
  successes the suffix is ``Completed 3 tasks.''.  Whatever the iteration order of the
  set, the next actions are absent when the successes suggest none, and otherwise they
  are pairwise distinct, all taken from the actions the successes suggest, and their
  number is the smaller of five and the number of different suggested actions.
\<close>

theorem generate_response_partial_success:
  assumes perm: "\<forall>ys. mset (set_order ys) = mset ys"
    and wf: "\<forall>r \<in> set rs. truthy (dict_get r ''success'') \<longrightarrow> wf_result r"
    and some: "\<exists>r \<in> set rs. truthy (dict_get r ''success'')"
  shows "\<exists>resp ms ss. generate_response set_order um rs ia = Inr resp
       \<and> collect_messages (filter (\<lambda>r. truthy (dict_get r ''success'')) rs) = map PStr ms
       \<and> collect_next_actions (filter (\<lambda>r. truthy (dict_get r ''success'')) rs) [] =
           Inr (map PStr ss)
       \<and> message resp =
           (if ms = [] then default_message else join newline ms) @
           (if 1 < length (filter (\<lambda>r. truthy (dict_get r ''success'')) rs)
            then newline @ newline @ ''Completed '' @
                 string_of_nat (length (filter (\<lambda>r. truthy (dict_get r ''success'')) rs)) @
                 '' tasks.''
            else [])
       \<and> (length (filter (\<lambda>r. truthy (dict_get r ''success'')) rs) = 3 \<and> ms \<noteq> [] \<longrightarrow>
             message resp = join newline ms @ newline @ newline @ ''Completed 3 tasks.'')
       \<and> success resp
       \<and> (\<forall>acts. next_actions resp = Some acts \<longrightarrow> length acts \<le> 5 \<and> distinct acts)
       \<and> (ss = [] \<longrightarrow> next_actions resp = None)
       \<and> (ss \<noteq> [] \<longrightarrow>
             (\<exists>acts. next_actions resp = Some acts \<and> length acts = min 5 (length (remdups ss))
                \<and> distinct acts \<and> set acts \<subseteq> set ss))"
proof -
  let ?succ = "filter (\<lambda>r. truthy (dict_get r ''success'')) rs"
  have ne: "?succ \<noteq> []" using some by (simp add: filter_empty_conv)
  have wfs: "\<forall>r \<in> set ?succ. wf_result r" using wf by simp
  obtain ms where ms: "collect_messages ?succ = map PStr ms"
    using collect_messages_strs[OF wfs] by blast
  obtain ss where ss: "collect_next_actions ?succ [] = Inr (map PStr ss)"
    using collect_next_actions_strs[OF wfs, of "[]"] by auto
  let ?msg = "(if ms = [] then default_message else join newline ms) @
           (if 1 < length ?succ
            then newline @ newline @ ''Completed '' @ string_of_nat (length ?succ) @ '' tasks.''
            else [])"
  let ?dat = "(if collect_data ?succ \<noteq> [] then Some (collect_data ?succ) else None)"
  have three: "length ?succ = 3 \<and> ms \<noteq> [] \<longrightarrow>
             ?msg = join newline ms @ newline @ newline @ ''Completed 3 tasks.''"
    by (simp add: string_of_nat_3)
  show ?thesis
  proof (cases "ss = []")
    case True
    let ?resp = "\<lparr>success = True, message = ?msg, data = ?dat,
                  suggestions = None, next_actions = None\<rparr>"
    have g: "generate_response set_order um rs ia = Inr ?resp"
      using ne ms ss True by (simp add: generate_response_def Let_def str_list_map)
    show ?thesis
      apply (rule exI[of _ ?resp])
      apply (rule exI[of _ ms])
      apply (rule exI[of _ ss])
      using g ms ss three True by simp
  next
    case False
    obtain acts where acts: "list_of_set set_order (map PStr ss) = Inr (map PStr acts)"
        and dist: "distinct acts" and sets: "set acts = set ss"
      using list_of_set_strs[OF perm, of ss] by blast
    have tk: "str_list (take 5 (map PStr acts)) = Some (take 5 acts)"
      by (simp add: take_map str_list_map)
    let ?resp = "\<lparr>success = True, message = ?msg, data = ?dat,
                  suggestions = None, next_actions = Some (take 5 acts)\<rparr>"
    have g: "generate_response set_order um rs ia = Inr ?resp"
      using ne ms ss False acts tk by (simp add: generate_response_def Let_def str_list_map)
    have "length acts = card (set ss)" using dist sets by (metis distinct_card)
    then have la: "length acts = length (remdups ss)" by (simp add: length_remdups_card_conv)
    have b1: "length (take 5 acts) \<le> 5 \<and> distinct (take 5 acts)" using dist by simp
    have b2: "length (take 5 acts) = min 5 (length (remdups ss))" using la by (simp add: min.commute)
    have b3: "set (take 5 acts) \<subseteq> set ss" using sets by (metis set_take_subset)
    have b4: "\<exists>a. next_actions ?resp = Some a \<and> length a = min 5 (length (remdups ss))
                \<and> distinct a \<and> set a \<subseteq> set ss"
      using b1 b2 b3 by (intro exI[of _ "take 5 acts"]) simp
    show ?thesis
      apply (rule exI[of _ ?resp])
      apply (rule exI[of _ ms])
      apply (rule exI[of _ ss])
      using g ms ss three False b1 b4 by simp
  qed
qed

text \<open>
  The amended property on the sample plan, with the set iterated in reverse order of
  first occurrence: five results of which the first, fourth and fifth are successes, the
  three success messages joined and followed by ``Completed 3 tasks.'', and five
  pairwise distinct next actions out of the six different ones the successes suggest.
\<close>

theorem generate_response_partial_success_witness:
  "\<exists>resp acts.
      generate_response rev ''''
        (results (projr (execute_tasks sample_run sample_plan ''s'' [] 0))) PNone = Inr resp
    \<and> map (\<lambda>r. dict_get r ''success'')
          (results (projr (execute_tasks sample_run sample_plan ''s'' [] 0)))
        = [PBool True, PBool False, PBool False, PBool True, PBool True]
    \<and> message resp = ''Job created'' @ newline @ ''Interview scheduled'' @ newline @
                      ''Job created'' @ newline @ newline @ ''Completed 3 tasks.''
    \<and> success resp
    \<and> next_actions resp = Some acts \<and> length acts = 5 \<and> distinct acts
    \<and> set acts \<subseteq> {''Post job'', ''Screen resumes'', ''Send invite'', ''Prepare questions'',
                    ''Book room'', ''Notify panel''}"
proof -
  let ?rs = "results (projr (execute_tasks sample_run sample_plan ''s'' [] 0))"
  let ?succ = "filter (\<lambda>r. truthy (dict_get r ''success'')) ?rs"
  have p: "\<forall>ys :: pyval list. mset (rev ys) = mset ys" by simp
  have w: "\<forall>r \<in> set ?rs. truthy (dict_get r ''success'') \<longrightarrow> wf_result r"
    by (simp add: sample_exec wf_result_def)
  have s: "\<exists>r \<in> set ?rs. truthy (dict_get r ''success'')"
    by (simp add: sample_exec)
  have flags: "map (\<lambda>r. dict_get r ''success'') ?rs
        = [PBool True, PBool False, PBool False, PBool True, PBool True]"
    by (simp add: sample_exec)
  have cm: "collect_messages ?succ
        = map PStr [''Job created'', ''Interview scheduled'', ''Job created'']"
    by (simp add: sample_exec collect_messages_def)
  have cn: "collect_next_actions ?succ []
        = Inr (map PStr [''Post job'', ''Screen resumes'', ''Send invite'', ''Screen resumes'',
                         ''Prepare questions'', ''Book room'', ''Notify panel'', ''Post job'',
                         ''Screen resumes''])"
    by (simp add: sample_exec py_iter_def)
  have l3: "length ?succ = 3" by (simp add: sample_exec)
  from generate_response_partial_success[OF p w s, of "''''" PNone]
  obtain resp ms ss where g: "generate_response rev '''' ?rs PNone = Inr resp"
    and m1: "collect_messages ?succ = map PStr ms"
    and n1: "collect_next_actions ?succ [] = Inr (map PStr ss)"
    and m3: "length ?succ = 3 \<and> ms \<noteq> [] \<longrightarrow>
             message resp = join newline ms @ newline @ newline @ ''Completed 3 tasks.''"
    and sc: "success resp"
    and na: "ss \<noteq> [] \<longrightarrow>
             (\<exists>acts. next_actions resp = Some acts \<and> length acts = min 5 (length (remdups ss))
                \<and> distinct acts \<and> set acts \<subseteq> set ss)"
    by (elim exE conjE) (rule that; assumption)
  have inj: "inj PStr" by (simp add: inj_on_def)
  have ms: "ms = [''Job created'', ''Interview scheduled'', ''Job created'']"
    using m1 cm inj by (metis inj_map_eq_map)
  have "map PStr ss = map PStr [''Post job'', ''Screen resumes'', ''Send invite'',
                         ''Screen resumes'', ''Prepare questions'', ''Book room'',
                         ''Notify panel'', ''Post job'', ''Screen resumes'']"
    using n1 cn by simp
  then have ss: "ss = [''Post job'', ''Screen resumes'', ''Send invite'', ''Screen resumes'',
                         ''Prepare questions'', ''Book room'', ''Notify panel'', ''Post job'',
                         ''Screen resumes'']"
    using inj by (metis inj_map_eq_map)
  have msg: "message resp = ''Job created'' @ newline @ ''Interview scheduled'' @ newline @
                      ''Job created'' @ newline @ newline @ ''Completed 3 tasks.''"
    using m3 l3 ms by (simp add: newline_def)
  have "ss \<noteq> []" using ss by simp
  then obtain acts where a: "next_actions resp = Some acts"
      "length acts = min 5 (length (remdups ss))" "distinct acts" "set acts \<subseteq> set ss"
    using na by blast
  have l5: "length acts = 5" using a(2) by (simp add: ss)
  have "set ss \<subseteq> {''Post job'', ''Screen resumes'', ''Send invite'',
                    ''Prepare questions'', ''Book room'', ''Notify panel''}"
    unfolding ss by simp
  then have sub: "set acts \<subseteq> {''Post job'', ''Screen resumes'', ''Send invite'',
                    ''Prepare questions'', ''Book room'', ''Notify panel''}"
    using a(4) by (rule subset_trans[rotated])
  show ?thesis
    by (rule exI[of _ resp], rule exI[of _ acts])
       (intro conjI g flags msg sc a(1) a(3) l5 sub)
qed

section \<open>Properties of the reasoning service, the decomposer and the orchestrator\<close>

lemma attempts_calls: "snd (attempts api n k) \<le> n + k"
proof (induction k arbitrary: n)
  case 0
  then show ?case by simp
next
  case (Suc k)
  have "snd (attempts api (Suc n) k) \<le> Suc n + k" by (rule Suc.IH)
  then show ?case by (cases "api n") auto
qed

lemma structured_calls: "snd (generate_structured_output loads api n) \<le> n + 3"
proof -
  obtain r n' where a: "attempts api n 3 = (r, n')" by (cases "attempts api n 3")
  then have "n' \<le> n + 3" using attempts_calls[of api n 3] by simp
  then show ?thesis using a
    by (auto simp: generate_structured_output_def llm_generate_response_def Let_def
             split: sum.splits option.splits)
qed

lemma decompose_calls:
  "snd (decompose loads vi api n um ctx now) = snd (generate_structured_output loads api n)"
  by (auto simp: decompose_def split: prod.splits sum.splits)

lemma plan_calls:
  "snd (generate_execution_plan loads vi api n um ctx now) \<le> n + 3"
proof -
  have "snd (generate_execution_plan loads vi api n um ctx now) =
        snd (decompose loads vi api n um ctx now)"
    by (auto simp: generate_execution_plan_def Let_def split: prod.splits sum.splits option.splits)
  then show ?thesis using structured_calls[of loads api n] by (simp add: decompose_calls)
qed


lemma sample_intent:
  "analyze_intent sample_loads sample_api 0 um =
     (Inr (PDict [(''intent'', PStr ''analytics''), (''requires_clarification'', PBool False),
                  (''clarification_questions'', PList [])]), 1)"
  by (simp add: analyze_intent_def generate_structured_output_def llm_generate_response_def
        sample_api_def sample_loads_def clean_response_def strip_def is_space_def startswith_def
        endswith_def fence_def numeral_3_eq_3 Let_def)

lemma sample_plan_invalid:
  "generate_execution_plan sample_loads int_only sample_api (Suc 0) um ctx now =
     (Inr [(''status'', PV (PStr ''invalid_sequence'')),
           (''error'', PV (PStr ''Task dependencies are invalid'')),
           (''plan'', PV PNone)], 2)"
  by (simp add: generate_execution_plan_def decompose_def generate_structured_output_def
        llm_generate_response_def sample_api_def sample_loads_def clean_response_def strip_def
        is_space_def startswith_def endswith_def fence_def numeral_3_eq_3 Let_def as_dict_def
        py_iter_def dict_get_default_def dict_get_def build_task_def subscript_def dict_item_def
        TaskType_of_def all_task_types_def int_only_def validate_task_sequence_def
        string_of_nat.simps)


lemma validate_loop_missing:
  assumes "\<forall>t \<in> set tasks. \<exists>ds. dict_get_default (input_data t) ''dependencies'' (PList []) = PList ds"
    and "\<exists>t \<in> set tasks. \<exists>ds. dict_get_default (input_data t) ''dependencies'' (PList []) = PList ds
            \<and> (\<exists>dep \<in> set ds. dep \<notin> set (map PStr ids))"
  shows "validate_loop ids tasks = Inr False"
  using assms
proof (induction tasks)
  case Nil
  then show ?case by simp
next
  case (Cons t ts)
  obtain ds where ds: "dict_get_default (input_data t) ''dependencies'' (PList []) = PList ds"
    using Cons.prems(1) by auto
  show ?case
  proof (cases "list_all (\<lambda>dep. dep \<in> set (map PStr ids)) ds")
    case False
    then show ?thesis using ds by (simp add: py_iter_def)
  next
    case True
    then have "\<exists>t \<in> set ts. \<exists>ds. dict_get_default (input_data t) ''dependencies'' (PList []) = PList ds
            \<and> (\<exists>dep \<in> set ds. dep \<notin> set (map PStr ids))"
      using Cons.prems(2) ds by (auto simp: list_all_iff)
    then have "validate_loop ids ts = Inr False" using Cons.IH Cons.prems(1) by simp
    then show ?thesis using ds True by (simp add: py_iter_def)
  qed
qed

lemma process_request_invalid_sequence:
  assumes "analyze_intent (env_loads env) (env_api env) (llm_calls sys) um = (Inr (PDict ia), n1)"
    and "\<not> truthy (dict_get ia ''requires_clarification'')"
    and "decompose (env_loads env) (env_validate_int env) (env_api env) n1 um
           (dict_merge
              (dict_merge (case ctx of None \<Rightarrow> [] | Some c \<Rightarrow> c)
                 (fst (get_relevant_context (memory sys) sid um now)))
              [(''conversation_summary'',
                PStr (summarize_conversation
                        (get_messages (add_message (ledger sys) sid ''user'' um None now) sid
                           (Some 5))))])
           now = (Inr dec, n2)"
    and "\<not> d_requires_clarification dec"
    and "validate_task_sequence (d_tasks dec) = Inr False"
  shows "process_request env sys um sid ctx now =
        (Inl (KeyError ''tasks''),
         sys\<lparr>ledger := add_message (ledger sys) sid ''user'' um None now,
             memory := snd (get_relevant_context (memory sys) sid um now),
             llm_calls := n2\<rparr>)"
proof -
  obtain mc m1 where g: "get_relevant_context (memory sys) sid um now = (mc, m1)"
    by (cases "get_relevant_context (memory sys) sid um now")
  show ?thesis using assms g
    by (simp add: process_request_def Let_def as_dict_def generate_execution_plan_def
          plan_item_def)
qed

lemma valid_task_type_value: "valid_type (task_type_value ty)"
  by (cases ty) (simp_all add: valid_type_def all_task_types_def)

lemma sorted_index_order:
  assumes "sorted (map f xs)" "i < length xs" "j < length xs" "f (xs ! i) < f (xs ! j)"
  shows "i < j"
proof (rule ccontr)
  assume "\<not> i < j"
  then have "j \<le> i" by simp
  then have "map f xs ! j \<le> map f xs ! i" using assms(1,2) by (simp add: sorted_iff_nth_mono)
  then show False using assms(2,3,4) by simp
qed


text \<open>
  C1.  A plan in which a dependency names an id that no task has is meant to end the
  request with an ``invalid task sequence'' failure response.  The decomposer marks such a
  plan with the status \<open>invalid_sequence\<close> (\<open>validate_loop_missing\<close>), but
  \<open>process_request\<close> tests the status for \<open>needs_clarification\<close> only and then reads
  \<open>execution_plan['tasks']\<close>, a key the invalid plan does not have
  (\<open>process_request_invalid_sequence\<close>).  On the sample request, whose single task depends
  on \<open>task_9\<close>, the call ends with \<open>KeyError('tasks')\<close> instead of a response; no handler
  is invoked.
\<close>

theorem process_request_invalid_plan_raises:
  "fst (process_request sample_env fresh_system ''show me hiring analytics'' ''s'' None 1000)
     = Inl (KeyError ''tasks'')
   \<and> handler_calls (snd (process_request sample_env fresh_system ''show me hiring analytics''
                            ''s'' None 1000)) = []
   \<and> fst (generate_execution_plan sample_loads int_only sample_api 1 ''show me hiring analytics''
            [] 1000)
     = Inr [(''status'', PV (PStr ''invalid_sequence'')),
            (''error'', PV (PStr ''Task dependencies are invalid'')),
            (''plan'', PV PNone)]"
  by (simp add: process_request_def sample_env_def fresh_system_def sample_intent
        sample_plan_invalid Let_def as_dict_def dict_get_def plan_item_def
        split: prod.splits)


text \<open>
  C2 (as stated).  The claim says that a terminal failure of intent analysis is returned to
  the caller as a failure response.  With a reasoning service that fails on every call,
  \<open>process_request\<close> returns no response: the exception of the service propagates, after
  the three attempts of the one \<open>generate_response\<close> call.
\<close>

theorem process_request_upstream_failure_counterexample:
  "fst (process_request failing_env fresh_system ''hi'' ''s'' None 1000)
     = Inl (Exception ''Error generating response: 503 UNAVAILABLE'')
   \<and> llm_calls (snd (process_request failing_env fresh_system ''hi'' ''s'' None 1000)) = 3
   \<and> handler_calls (snd (process_request failing_env fresh_system ''hi'' ''s'' None 1000)) = []"
  by (simp add: process_request_def failing_env_def fresh_system_def analyze_intent_def
        generate_structured_output_def llm_generate_response_def failing_api_def
        rate_limited_def numeral_3_eq_3 Let_def split: prod.splits)

text \<open>
  C2 (amended).  When intent analysis fails, or when intent analysis succeeds without
  asking for clarification and the decomposition fails, \<open>process_request\<close> ends with that
  very exception and performs no retry of its own: the reasoning service has been invoked
  once per stage, with at most three calls each.  The state holds the user's message and
  the cleanup of the memory read, nothing else: no assistant message, no memory write, no
  handler call.
\<close>

theorem process_request_upstream_failure:
  "(analyze_intent (env_loads env) (env_api env) (llm_calls sys) um = (Inl e, n1) \<longrightarrow>
      process_request env sys um sid ctx now =
        (Inl e, sys\<lparr>ledger := add_message (ledger sys) sid ''user'' um None now,
                    memory := snd (get_relevant_context (memory sys) sid um now),
                    llm_calls := n1\<rparr>)
      \<and> n1 \<le> llm_calls sys + 3)
   \<and> (analyze_intent (env_loads env) (env_api env) (llm_calls sys) um = (Inr (PDict ia), n1)
      \<and> \<not> truthy (dict_get ia ''requires_clarification'')
      \<and> generate_execution_plan (env_loads env) (env_validate_int env) (env_api env) n1 um
           (dict_merge
              (dict_merge (case ctx of None \<Rightarrow> [] | Some c \<Rightarrow> c)
                 (fst (get_relevant_context (memory sys) sid um now)))
              [(''conversation_summary'',
                PStr (summarize_conversation
                        (get_messages (add_message (ledger sys) sid ''user'' um None now) sid
                           (Some 5))))])
           now = (Inl e, n2) \<longrightarrow>
      process_request env sys um sid ctx now =
        (Inl e, sys\<lparr>ledger := add_message (ledger sys) sid ''user'' um None now,
                    memory := snd (get_relevant_context (memory sys) sid um now),
                    llm_calls := n2\<rparr>)
      \<and> n1 \<le> llm_calls sys + 3 \<and> n2 \<le> n1 + 3)"
proof -
  obtain mc m1 where g: "get_relevant_context (memory sys) sid um now = (mc, m1)"
    by (cases "get_relevant_context (memory sys) sid um now")
  have a: "analyze_intent (env_loads env) (env_api env) (llm_calls sys) um = (r, n1) \<Longrightarrow>
           n1 \<le> llm_calls sys + 3" for r
    using structured_calls[of "env_loads env" "env_api env" "llm_calls sys"]
    by (simp add: analyze_intent_def)
  have b: "generate_execution_plan (env_loads env) (env_validate_int env) (env_api env) n1 um c
             now = (r, n2) \<Longrightarrow> n2 \<le> n1 + 3" for r c
    using plan_calls[of "env_loads env" "env_validate_int env" "env_api env" n1 um c now]
    by simp
  show ?thesis
    using a b g
    by (auto simp: process_request_def Let_def as_dict_def)
qed

theorem process_request_upstream_failure_witness:
  "process_request failing_env fresh_system ''hi'' ''s'' None 1000 =
     (Inl (Exception ''Error generating response: 503 UNAVAILABLE''),
      fresh_system\<lparr>ledger := add_message (ledger fresh_system) ''s'' ''user'' ''hi'' None 1000,
                    memory := snd (get_relevant_context (memory fresh_system) ''s'' ''hi'' 1000),
                    llm_calls := 3\<rparr>)
   \<and> process_request late_failing_env fresh_system ''hi'' ''s'' None 1000 =
     (Inl (Exception ''Error generating response: 503 UNAVAILABLE''),
      fresh_system\<lparr>ledger := add_message (ledger fresh_system) ''s'' ''user'' ''hi'' None 1000,
                    memory := snd (get_relevant_context (memory fresh_system) ''s'' ''hi'' 1000),
                    llm_calls := 4\<rparr>)"
proof -
  let ?ia = "[(''intent'', PStr ''analytics''), (''requires_clarification'', PBool False),
              (''clarification_questions'', PList [])]"
  have a: "analyze_intent (env_loads failing_env) (env_api failing_env) (llm_calls fresh_system)
             ''hi'' = (Inl (Exception ''Error generating response: 503 UNAVAILABLE''), 3)"
    by (simp add: failing_env_def fresh_system_def analyze_intent_def
          generate_structured_output_def llm_generate_response_def failing_api_def
          rate_limited_def numeral_3_eq_3)
  have b: "analyze_intent (env_loads late_failing_env) (env_api late_failing_env)
             (llm_calls fresh_system) ''hi'' = (Inr (PDict ?ia), 1)"
    by (simp add: late_failing_env_def fresh_system_def analyze_intent_def
          generate_structured_output_def llm_generate_response_def late_failing_api_def
          sample_loads_def clean_response_def strip_def is_space_def startswith_def
          endswith_def fence_def numeral_3_eq_3 Let_def)
  have c: "\<not> truthy (dict_get ?ia ''requires_clarification'')" by (simp add: dict_get_def)
  have d: "generate_execution_plan (env_loads late_failing_env)
             (env_validate_int late_failing_env) (env_api late_failing_env) 1 ''hi'' cx 1000
           = (Inl (Exception ''Error generating response: 503 UNAVAILABLE''), 4)" for cx
    by (simp add: late_failing_env_def generate_execution_plan_def decompose_def
          generate_structured_output_def llm_generate_response_def late_failing_api_def
          rate_limited_def numeral_3_eq_3)
  note t1 = process_request_upstream_failure[where env = failing_env and sys = fresh_system
      and um = "''hi''" and sid = "''s''" and ctx = None and now = 1000
      and e = "Exception ''Error generating response: 503 UNAVAILABLE''" and ?n1.0 = 3
      and ia = "[]" and ?n2.0 = 0]
  note t2 = process_request_upstream_failure[where env = late_failing_env and sys = fresh_system
      and um = "''hi''" and sid = "''s''" and ctx = None and now = 1000
      and e = "Exception ''Error generating response: 503 UNAVAILABLE''" and ?n1.0 = 1
      and ia = ?ia and ?n2.0 = 4]
  have r1: "process_request failing_env fresh_system ''hi'' ''s'' None 1000 =
     (Inl (Exception ''Error generating response: 503 UNAVAILABLE''),
      fresh_system\<lparr>ledger := add_message (ledger fresh_system) ''s'' ''user'' ''hi'' None 1000,
                    memory := snd (get_relevant_context (memory fresh_system) ''s'' ''hi'' 1000),
                    llm_calls := 3\<rparr>)"
    using t1 a by blast
  have r2: "process_request late_failing_env fresh_system ''hi'' ''s'' None 1000 =
     (Inl (Exception ''Error generating response: 503 UNAVAILABLE''),
      fresh_system\<lparr>ledger := add_message (ledger fresh_system) ''s'' ''user'' ''hi'' None 1000,
                    memory := snd (get_relevant_context (memory fresh_system) ''s'' ''hi'' 1000),
                    llm_calls := 4\<rparr>)"
    using t2 b c d by blast
  show ?thesis using r1 r2 by (rule conjI)
qed

lemma plan_task_filter:
  "filter (\<lambda>t. pt_priority t = p) (map plan_task_of xs) =
     map plan_task_of (filter (\<lambda>t. priority t = p) xs)"
  by (induction xs) (simp_all add: plan_task_of_def)


text \<open>
  C8.  When a request is analysed without need of clarification and its decomposition is
  valid, the execution plan that \<open>generate_execution_plan\<close> returns is ready and its task
  list is the stable ascending sort of the decomposed tasks by priority: the priorities of
  the plan are sorted, the plan is a rearrangement of the decomposed tasks, and the tasks
  of one priority keep their emission order.  A task of lower priority number stands
  before every task of higher priority number; in particular a priority-1 task is placed
  before a priority-3 task wherever they stood in the emission order.  \<open>process_request\<close>
  dispatches this list: the handler calls it makes are those of the plan's tasks that have
  a handler, in plan order.
\<close>

theorem prioritize_tasks_stable_order:
  assumes "analyze_intent (env_loads env) (env_api env) (llm_calls sys) um = (Inr (PDict ia), n1)"
    and "\<not> truthy (dict_get ia ''requires_clarification'')"
    and "decompose (env_loads env) (env_validate_int env) (env_api env) n1 um
           (dict_merge
              (dict_merge (case ctx of None \<Rightarrow> [] | Some c \<Rightarrow> c)
                 (fst (get_relevant_context (memory sys) sid um now)))
              [(''conversation_summary'',
                PStr (summarize_conversation
                        (get_messages (add_message (ledger sys) sid ''user'' um None now) sid
                           (Some 5))))])
           now = (Inr dec, n2)"
    and "\<not> d_requires_clarification dec"
    and "validate_task_sequence (d_tasks dec) = Inr True"
  shows "\<exists>plan pts.
        generate_execution_plan (env_loads env) (env_validate_int env) (env_api env) n1 um
           (dict_merge
              (dict_merge (case ctx of None \<Rightarrow> [] | Some c \<Rightarrow> c)
                 (fst (get_relevant_context (memory sys) sid um now)))
              [(''conversation_summary'',
                PStr (summarize_conversation
                        (get_messages (add_message (ledger sys) sid ''user'' um None now) sid
                           (Some 5))))])
           now = (Inr plan, n2)
      \<and> map_of plan ''status'' = Some (PV (PStr ''ready''))
      \<and> map_of plan ''tasks'' = Some (PTasks pts)
      \<and> pts = map plan_task_of (prioritize_tasks (d_tasks dec))
      \<and> sorted (map pt_priority pts)
      \<and> mset pts = mset (map plan_task_of (d_tasks dec))
      \<and> (\<forall>p. filter (\<lambda>t. pt_priority t = p) pts =
               map plan_task_of (filter (\<lambda>t. priority t = p) (d_tasks dec)))
      \<and> (\<forall>i j. i < length pts \<and> j < length pts \<and> pt_priority (pts ! i) < pt_priority (pts ! j)
             \<longrightarrow> i < j)
      \<and> (\<forall>a b. a \<in> set (d_tasks dec) \<and> b \<in> set (d_tasks dec) \<and> priority a = 1 \<and> priority b = 3
             \<longrightarrow> (\<exists>i j. i < j \<and> j < length pts
                     \<and> pts ! i = plan_task_of a \<and> pts ! j = plan_task_of b))
      \<and> map fst (handler_calls (snd (process_request env sys um sid ctx now))) =
          map fst (handler_calls sys) @
          map pt_task_id (filter (\<lambda>t. has_agent (pt_type t)) pts)"
proof -
  let ?FC = "dict_merge
              (dict_merge (case ctx of None \<Rightarrow> [] | Some c \<Rightarrow> c)
                 (fst (get_relevant_context (memory sys) sid um now)))
              [(''conversation_summary'',
                PStr (summarize_conversation
                        (get_messages (add_message (ledger sys) sid ''user'' um None now) sid
                           (Some 5))))]"
  let ?ts = "prioritize_tasks (d_tasks dec)"
  let ?pts = "map plan_task_of ?ts"
  let ?plan = "[(''status'', PV (PStr ''ready'')),
                (''total_tasks'', PV (PInt (int (length ?ts)))),
                (''tasks'', PTasks ?pts),
                (''estimated_time'', PV (PStr (estimate_time ?ts)))]"
  have gp: "generate_execution_plan (env_loads env) (env_validate_int env) (env_api env) n1 um
              ?FC now = (Inr ?plan, n2)"
    using assms(3,4,5) by (simp add: generate_execution_plan_def Let_def)
  have pr: "map pt_priority ?pts = map priority ?ts"
    by (simp add: plan_task_of_def o_def)
  have s: "sorted (map pt_priority ?pts)"
    by (simp only: pr) (simp add: prioritize_tasks_def)
  have m: "mset ?pts = mset (map plan_task_of (d_tasks dec))"
    by (simp add: prioritize_tasks_def)
  have st: "\<forall>p. filter (\<lambda>t. pt_priority t = p) ?pts =
               map plan_task_of (filter (\<lambda>t. priority t = p) (d_tasks dec))"
    by (simp add: plan_task_filter prioritize_tasks_def sort_key_stable)
  have ord: "\<forall>i j. i < length ?pts \<and> j < length ?pts
                \<and> pt_priority (?pts ! i) < pt_priority (?pts ! j) \<longrightarrow> i < j"
    using sorted_index_order[OF s] by blast
  have ab: "\<forall>a b. a \<in> set (d_tasks dec) \<and> b \<in> set (d_tasks dec) \<and> priority a = 1 \<and> priority b = 3
             \<longrightarrow> (\<exists>i j. i < j \<and> j < length ?pts
                     \<and> ?pts ! i = plan_task_of a \<and> ?pts ! j = plan_task_of b)"
  proof (intro allI impI)
    fix a b
    assume h: "a \<in> set (d_tasks dec) \<and> b \<in> set (d_tasks dec) \<and> priority a = 1 \<and> priority b = 3"
    have "set ?ts = set (d_tasks dec)" by (simp add: prioritize_tasks_def)
    then obtain i j where i: "i < length ?ts" "?ts ! i = a"
      and j: "j < length ?ts" "?ts ! j = b"
      using h by (metis in_set_conv_nth)
    have pi: "?pts ! i = plan_task_of a" and pj: "?pts ! j = plan_task_of b"
      using i j by simp_all
    have lt: "pt_priority (?pts ! i) < pt_priority (?pts ! j)"
      using h by (simp only: pi pj) (simp add: plan_task_of_def)
    have li: "i < length ?pts" and lj: "j < length ?pts" using i(1) j(1) by simp_all
    have "i < j" by (rule sorted_index_order[OF s li lj lt])
    then show "\<exists>i j. i < j \<and> j < length ?pts
                     \<and> ?pts ! i = plan_task_of a \<and> ?pts ! j = plan_task_of b"
      using pi pj lj by (intro exI[of _ i] exI[of _ j] conjI)
  qed
  have v: "\<forall>t \<in> set ?pts. valid_type (pt_type t)"
    by (simp add: plan_task_of_def valid_task_type_value)
  let ?st0 = "\<lparr>results = [], shared = ?FC, world = collaborators sys, invoked = []\<rparr>"
  obtain d where ex: "execute_loop (env_run env) ?pts ?st0 = Inr d"
    and tr: "map fst (invoked d) =
               map fst (invoked ?st0) @ map pt_task_id (filter (\<lambda>t. has_agent (pt_type t)) ?pts)"
    using execute_loop_trace[OF v, of "env_run env" ?st0] by blast
  obtain mc m1 where g: "get_relevant_context (memory sys) sid um now = (mc, m1)"
    by (cases "get_relevant_context (memory sys) sid um now")
  have ex': "execute_tasks (env_run env) ?pts sid
               (dict_merge (dict_merge (case ctx of None \<Rightarrow> [] | Some c \<Rightarrow> c) mc)
                  [(''conversation_summary'',
                    PStr (summarize_conversation
                        (get_messages (add_message (ledger sys) sid ''user'' um None now) sid
                           (Some 5))))])
               (collaborators sys) = Inr d"
    using ex g by (simp add: execute_tasks_def)
  have gp': "generate_execution_plan (env_loads env) (env_validate_int env) (env_api env) n1 um
              (dict_merge (dict_merge (case ctx of None \<Rightarrow> [] | Some c \<Rightarrow> c) mc)
                  [(''conversation_summary'',
                    PStr (summarize_conversation
                        (get_messages (add_message (ledger sys) sid ''user'' um None now) sid
                           (Some 5))))])
              now = (Inr ?plan, n2)"
    using gp g by simp
  have hc: "map fst (handler_calls (snd (process_request env sys um sid ctx now))) =
          map fst (handler_calls sys) @
          map pt_task_id (filter (\<lambda>t. has_agent (pt_type t)) ?pts)"
    using assms(1,2) g gp' ex' tr
    by (simp add: process_request_def Let_def as_dict_def plan_item_def
             split: sum.splits prod.splits)
  have c1: "map_of ?plan ''status'' = Some (PV (PStr ''ready''))" by simp
  have c2: "map_of ?plan ''tasks'' = Some (PTasks ?pts)" by simp
  show ?thesis
    by (intro exI[of _ ?plan] exI[of _ ?pts] conjI gp c1 c2 refl s m st ord ab hc)
qed

theorem prioritize_tasks_stable_order_witness:
  "map fst (handler_calls (snd (process_request ordering_env fresh_system ''hire'' ''s'' None 1000)))
     = [''task_2'', ''task_3'', ''task_1'']"
proof -
  let ?ia = "[(''intent'', PStr ''analytics''), (''requires_clarification'', PBool False),
              (''clarification_questions'', PList [])]"
  let ?t1 = "\<lparr>task_id = ''task_1'', task_type = INTERVIEW_SCHEDULING, description = ''schedule'',
              input_data = [(''user_request'', PStr ''hire''), (''dependencies'', PList []),
                            (''input_requirements'', PList [])],
              priority = 3, status = ''pending'', result = None, task_created_at = 1000\<rparr>"
  let ?t2 = "\<lparr>task_id = ''task_2'', task_type = JOB_DESCRIPTION, description = ''write'',
              input_data = [(''user_request'', PStr ''hire''), (''dependencies'', PList []),
                            (''input_requirements'', PList [])],
              priority = 1, status = ''pending'', result = None, task_created_at = 1000\<rparr>"
  let ?t3 = "\<lparr>task_id = ''task_3'', task_type = RESUME_SCREENING, description = ''screen'',
              input_data = [(''user_request'', PStr ''hire''),
                            (''dependencies'', PList [PStr ''task_2'']),
                            (''input_requirements'', PList [])],
              priority = 1, status = ''pending'', result = None, task_created_at = 1000\<rparr>"
  let ?dec = "\<lparr>d_tasks = [?t1, ?t2, ?t3], d_requires_clarification = False, d_questions = None\<rparr>"
  have h1: "analyze_intent (env_loads ordering_env) (env_api ordering_env) (llm_calls fresh_system)
              ''hire'' = (Inr (PDict ?ia), 1)"
    by (simp add: ordering_env_def fresh_system_def analyze_intent_def
          generate_structured_output_def llm_generate_response_def ordering_api_def
          ordering_loads_def sample_loads_def clean_response_def strip_def is_space_def
          startswith_def endswith_def fence_def numeral_3_eq_3 Let_def)
  have h2: "\<not> truthy (dict_get ?ia ''requires_clarification'')" by (simp add: dict_get_def)
  have h3: "decompose (env_loads ordering_env) (env_validate_int ordering_env)
              (env_api ordering_env) 1 ''hire'' cx 1000 = (Inr ?dec, 2)" for cx
    by (simp add: ordering_env_def decompose_def generate_structured_output_def
          llm_generate_response_def ordering_api_def ordering_loads_def clean_response_def
          strip_def is_space_def startswith_def endswith_def fence_def numeral_3_eq_3 Let_def
          as_dict_def py_iter_def dict_get_default_def dict_get_def build_task_def subscript_def
          dict_item_def TaskType_of_def all_task_types_def int_only_def string_of_nat.simps)
  have h4: "\<not> d_requires_clarification ?dec" by simp
  have h5: "validate_task_sequence (d_tasks ?dec) = Inr True"
    by (simp add: validate_task_sequence_def py_iter_def dict_get_default_def)
  note t = prioritize_tasks_stable_order[where env = ordering_env and sys = fresh_system
      and um = "''hire''" and sid = "''s''" and ctx = None and now = 1000, OF h1 h2 h3 h4 h5]
  let ?FC = "dict_merge
              (dict_merge (case None of None \<Rightarrow> [] | Some c \<Rightarrow> c)
                 (fst (get_relevant_context (memory fresh_system) ''s'' ''hire'' 1000)))
              [(''conversation_summary'',
                PStr (summarize_conversation
                        (get_messages (add_message (ledger fresh_system) ''s'' ''user'' ''hire''
                                         None 1000) ''s'' (Some 5))))]"
  have "\<exists>plan pts.
        generate_execution_plan (env_loads ordering_env) (env_validate_int ordering_env)
          (env_api ordering_env) 1 ''hire'' ?FC 1000 = (Inr plan, 2)
      \<and> map_of plan ''tasks'' = Some (PTasks pts)
      \<and> pts = map plan_task_of (prioritize_tasks (d_tasks ?dec))
      \<and> map fst (handler_calls (snd (process_request ordering_env fresh_system ''hire'' ''s''
                                        None 1000))) =
          map fst (handler_calls fresh_system) @
          map pt_task_id (filter (\<lambda>t. has_agent (pt_type t)) pts)"
    using t by (elim exE conjE) (intro exI conjI; assumption)
  then obtain pts where
        p: "pts = map plan_task_of (prioritize_tasks (d_tasks ?dec))"
    and hc: "map fst (handler_calls (snd (process_request ordering_env fresh_system ''hire'' ''s''
                                        None 1000))) =
          map fst (handler_calls fresh_system) @
          map pt_task_id (filter (\<lambda>t. has_agent (pt_type t)) pts)"
    by blast
  have "map pt_task_id (filter (\<lambda>t. has_agent (pt_type t)) pts) = [''task_2'', ''task_3'', ''task_1'']"
    by (simp add: p prioritize_tasks_def plan_task_of_def has_agent_def TaskType_of_def
          all_task_types_def agents_def)
  then show ?thesis using hc by (simp add: fresh_system_def)
qed

end
